theory Spec2Isabelle
  imports Complex_Main
begin

section \<open>The AlgoExpert scraper: test-case pairing and crawl orchestration\<close>

text \<open>
  A shallow embedding of \<^verbatim>\<open>scraper.js\<close>: the loop of
  \<^verbatim>\<open>DataExtractor.extractTestCases\<close> that pairs the text fragments of the
  test-case panel, and the loop of \<^verbatim>\<open>Scraper.run\<close> that walks the question
  queue of every category.

  Text is an Isabelle \<^typ>\<open>string\<close>, so a character is one code unit below 256.
  What the browser and the file system answer is an input of the model; an exception is
  a value of type \<open>error\<close> on the left of a sum.
\<close>

subsection \<open>JSON values and \<^verbatim>\<open>JSON.parse\<close>\<close>

text \<open>
  \<^verbatim>\<open>JSON.parse\<close> belongs to the JavaScript runtime, not to the repository. The
  functions that use it take the parser as an argument \<open>parse\<close>, with \<open>None\<close> for the
  thrown \<^verbatim>\<open>SyntaxError\<close>; \<open>JSON_parse\<close> below is a parser for the JSON grammar
  (ECMA-404) on which they are evaluated. Numbers are exact rationals (the rounding to
  IEEE doubles is not modelled), an object is the list of its members in the order of
  their first occurrence, a repeated key keeps its last value, and an escape
  \<^verbatim>\<open>\uXXXX\<close> beyond code unit 255 is rejected.
\<close>

datatype json =
    JNull
  | JBool bool
  | JNum rat
  | JString string
  | JArray "json list"
  | JObject "(string \<times> json) list"

definition is_json_ws :: "char \<Rightarrow> bool" where
  "is_json_ws c = (c = CHR '' '' \<or> c = CHR 0x09 \<or> c = CHR 0x0A \<or> c = CHR 0x0D)"

definition skip_ws :: "string \<Rightarrow> string" where
  "skip_ws s = dropWhile is_json_ws s"

definition is_digit :: "char \<Rightarrow> bool" where
  "is_digit c = (48 \<le> (of_char c :: nat) \<and> (of_char c :: nat) \<le> 57)"

definition digits_value :: "string \<Rightarrow> nat" where
  "digits_value ds = foldl (\<lambda>n c. 10 * n + (of_char c - 48)) 0 ds"

definition hex_value :: "char \<Rightarrow> nat option" where
  "hex_value c =
     (let n = (of_char c :: nat) in
      if 48 \<le> n \<and> n \<le> 57 then Some (n - 48)
      else if 65 \<le> n \<and> n \<le> 70 then Some (n - 55)
      else if 97 \<le> n \<and> n \<le> 102 then Some (n - 87)
      else None)"

definition parse_number :: "string \<Rightarrow> (rat \<times> string) option" where
  "parse_number s =
     (let (neg, s1) = (case s of c # r \<Rightarrow> if c = CHR ''-'' then (True, r) else (False, s) | [] \<Rightarrow> (False, s));
          ip = takeWhile is_digit s1;
          s2 = dropWhile is_digit s1
      in if ip = [] \<or> (1 < length ip \<and> hd ip = CHR ''0'') then None
         else
           (case (case s2 of
                    [] \<Rightarrow> Some ([], s2)
                  | c # r \<Rightarrow>
                      if c = CHR ''.'' then
                        (if takeWhile is_digit r = [] then None
                         else Some (takeWhile is_digit r, dropWhile is_digit r))
                      else Some ([], s2)) of
              None \<Rightarrow> None
            | Some (fp, s3) \<Rightarrow>
                (case (case s3 of
                         [] \<Rightarrow> Some (False, [], s3)
                       | c # r \<Rightarrow>
                           if c = CHR ''e'' \<or> c = CHR ''E'' then
                             (let (eneg, r1) = (case r of
                                                   d # r' \<Rightarrow> if d = CHR ''-'' then (True, r')
                                                             else if d = CHR ''+'' then (False, r')
                                                             else (False, r)
                                                 | [] \<Rightarrow> (False, r))
                              in if takeWhile is_digit r1 = [] then None
                                 else Some (eneg, takeWhile is_digit r1, dropWhile is_digit r1))
                           else Some (False, [], s3)) of
                   None \<Rightarrow> None
                 | Some (eneg, ep, s4) \<Rightarrow>
                     (let m = rat_of_nat (digits_value (ip @ fp)) / 10 ^ length fp;
                          v = (if eneg then m / 10 ^ digits_value ep else m * 10 ^ digits_value ep)
                      in Some (if neg then - v else v, s4)))))"

fun parse_string_chars :: "string \<Rightarrow> (string \<times> string) option" where
  "parse_string_chars [] = None"
| "parse_string_chars (c # cs) =
     (if c = CHR 0x22 then Some ([], cs)
      else if c = CHR 0x5C then
        (case cs of
           [] \<Rightarrow> None
         | e # r \<Rightarrow>
             if e = CHR ''u'' then
               (case r of
                  h1 # h2 # h3 # h4 # r' \<Rightarrow>
                    (case (hex_value h1, hex_value h2, hex_value h3, hex_value h4) of
                       (Some a, Some b, Some c', Some d) \<Rightarrow>
                         if a = 0 \<and> b = 0 then
                           (case parse_string_chars r' of
                              None \<Rightarrow> None
                            | Some (str, rest) \<Rightarrow> Some (char_of (16 * c' + d) # str, rest))
                         else None
                     | _ \<Rightarrow> None)
                | _ \<Rightarrow> None)
             else
               (case (if e = CHR 0x22 then Some (CHR 0x22)
                      else if e = CHR 0x5C then Some (CHR 0x5C)
                      else if e = CHR ''/'' then Some (CHR ''/'')
                      else if e = CHR ''b'' then Some (CHR 0x08)
                      else if e = CHR ''f'' then Some (CHR 0x0C)
                      else if e = CHR ''n'' then Some (CHR 0x0A)
                      else if e = CHR ''r'' then Some (CHR 0x0D)
                      else if e = CHR ''t'' then Some (CHR 0x09)
                      else None) of
                  None \<Rightarrow> None
                | Some ch \<Rightarrow>
                    (case parse_string_chars r of
                       None \<Rightarrow> None
                     | Some (str, rest) \<Rightarrow> Some (ch # str, rest))))
      else if (of_char c :: nat) < 32 then None
      else (case parse_string_chars cs of
              None \<Rightarrow> None
            | Some (str, rest) \<Rightarrow> Some (c # str, rest)))"

fun set_property :: "string \<Rightarrow> json \<Rightarrow> (string \<times> json) list \<Rightarrow> (string \<times> json) list" where
  "set_property k v [] = [(k, v)]"
| "set_property k v ((k', v') # ps) =
     (if k = k' then (k, v) # ps else (k', v') # set_property k v ps)"

function parse_value :: "string \<Rightarrow> (json \<times> string) option"
  and parse_elements :: "string \<Rightarrow> (json list \<times> string) option"
  and parse_members :: "string \<Rightarrow> ((string \<times> json) list \<times> string) option"
where
  "parse_value [] = None"
| "parse_value (c # cs) =
     (if c = CHR ''['' then
        (case skip_ws cs of
           [] \<Rightarrow> None
         | d # r \<Rightarrow>
             if d = CHR '']'' then Some (JArray [], r)
             else (case parse_elements (skip_ws cs) of
                     None \<Rightarrow> None
                   | Some (vs, rest) \<Rightarrow> Some (JArray vs, rest)))
      else if c = CHR ''{'' then
        (case skip_ws cs of
           [] \<Rightarrow> None
         | d # r \<Rightarrow>
             if d = CHR ''}'' then Some (JObject [], r)
             else (case parse_members (skip_ws cs) of
                     None \<Rightarrow> None
                   | Some (ms, rest) \<Rightarrow> Some (JObject (foldl (\<lambda>obj (k, v). set_property k v obj) [] ms), rest)))
      else if c = CHR 0x22 then
        (case parse_string_chars cs of
           None \<Rightarrow> None
         | Some (str, rest) \<Rightarrow> Some (JString str, rest))
      else if c = CHR ''-'' \<or> is_digit c then
        (case parse_number (c # cs) of
           None \<Rightarrow> None
         | Some (n, rest) \<Rightarrow> Some (JNum n, rest))
      else if take 4 (c # cs) = ''true'' then Some (JBool True, drop 4 (c # cs))
      else if take 5 (c # cs) = ''false'' then Some (JBool False, drop 5 (c # cs))
      else if take 4 (c # cs) = ''null'' then Some (JNull, drop 4 (c # cs))
      else None)"
| "parse_elements s =
     (case parse_value s of
        None \<Rightarrow> None
      | Some (v, r) \<Rightarrow>
          if length r < length s then
            (case skip_ws r of
               [] \<Rightarrow> None
             | d # r' \<Rightarrow>
                 if d = CHR '','' then
                   (case parse_elements (skip_ws r') of
                      None \<Rightarrow> None
                    | Some (vs, rest) \<Rightarrow> Some (v # vs, rest))
                 else if d = CHR '']'' then Some ([v], r')
                 else None)
          else None)"
| "parse_members s =
     (case s of
        [] \<Rightarrow> None
      | q # cs \<Rightarrow>
          if q = CHR 0x22 then
            (case parse_string_chars cs of
               None \<Rightarrow> None
             | Some (k, r1) \<Rightarrow>
                 (case skip_ws r1 of
                    [] \<Rightarrow> None
                  | col # r2 \<Rightarrow>
                      if col = CHR '':'' \<and> length r2 < length s then
                        (case parse_value (skip_ws r2) of
                           None \<Rightarrow> None
                         | Some (v, r3) \<Rightarrow>
                             if length r3 < length s then
                               (case skip_ws r3 of
                                  [] \<Rightarrow> None
                                | d # r4 \<Rightarrow>
                                    if d = CHR '','' then
                                      (case parse_members (skip_ws r4) of
                                         None \<Rightarrow> None
                                       | Some (ms, rest) \<Rightarrow> Some ((k, v) # ms, rest))
                                    else if d = CHR ''}'' then Some ([(k, v)], r4)
                                    else None)
                             else None)
                      else None))
          else None)"
  by pat_completeness auto

termination
proof (relation "measure (\<lambda>x. case x of Inl s \<Rightarrow> 2 * length s
                                        | Inr (Inl s) \<Rightarrow> 2 * length s + 1
                                        | Inr (Inr s) \<Rightarrow> 2 * length s + 1)",
       goal_cases)
  case 1
  show ?case by simp
next
  case (2 c cs)
  show ?case using length_dropWhile_le [of is_json_ws cs] by (simp add: skip_ws_def)
next
  case (3 c cs)
  show ?case using length_dropWhile_le [of is_json_ws cs] by (simp add: skip_ws_def)
next
  case (4 s)
  show ?case by simp
next
  case (5 s x v r d r')
  then show ?case
    using length_dropWhile_le [of is_json_ws r'] length_dropWhile_le [of is_json_ws r]
    by (simp add: skip_ws_def)
next
  case (6 s q cs x k r1 col r2)
  then show ?case using length_dropWhile_le [of is_json_ws r2] by (simp add: skip_ws_def)
next
  case (7 s q cs x k r1 col r2 x2 v r3 d r4)
  then show ?case
    using length_dropWhile_le [of is_json_ws r4] length_dropWhile_le [of is_json_ws r3]
    by (simp add: skip_ws_def)
qed

definition JSON_parse :: "string \<Rightarrow> json option" where
  "JSON_parse text =
     (case parse_value (skip_ws text) of
        None \<Rightarrow> None
      | Some (v, rest) \<Rightarrow> if skip_ws rest = [] then Some v else None)"

subsection \<open>Text helpers of the JavaScript runtime\<close>

text \<open>
  \<^verbatim>\<open>\s\<close> and \<^verbatim>\<open>String.prototype.trim\<close>: the white space and line
  terminators of ECMAScript that fit in one byte.
\<close>

definition is_space :: "char \<Rightarrow> bool" where
  "is_space c =
     (c = CHR 0x09 \<or> c = CHR 0x0A \<or> c = CHR 0x0B \<or> c = CHR 0x0C \<or> c = CHR 0x0D
      \<or> c = CHR 0x20 \<or> c = CHR 0xA0)"

definition trim :: "string \<Rightarrow> string" where
  "trim s = rev (dropWhile is_space (rev (dropWhile is_space s)))"

text \<open>
  \<^verbatim>\<open>String.prototype.split\<close> with a separator of one character; the last case of
  the inner \<open>case\<close> is never reached, since the result is never empty.
\<close>

fun split_on :: "char \<Rightarrow> string \<Rightarrow> string list" where
  "split_on sep [] = [[]]"
| "split_on sep (c # cs) =
     (if c = sep then [] # split_on sep cs
      else (case split_on sep cs of
              piece # pieces \<Rightarrow> (c # piece) # pieces
            | [] \<Rightarrow> [[c]]))"

text \<open>The template literal \<^verbatim>\<open>`${n}`\<close> of a non-negative integer.\<close>

function decimal :: "nat \<Rightarrow> string" where
  "decimal n =
     (if n < 10 then [char_of (48 + n)]
      else decimal (n div 10) @ [char_of (48 + n mod 10)])"
  by pat_completeness auto
termination
  by (relation "measure (\<lambda>n. n)") auto

declare decimal.simps [simp del]

text \<open>\<^verbatim>\<open>/^[a-zA-Z]/.test(s)\<close>\<close>

definition is_ascii_letter :: "char \<Rightarrow> bool" where
  "is_ascii_letter c =
     ((65 \<le> (of_char c :: nat) \<and> (of_char c :: nat) \<le> 90)
      \<or> (97 \<le> (of_char c :: nat) \<and> (of_char c :: nat) \<le> 122))"

definition begins_with_letter :: "string \<Rightarrow> bool" where
  "begins_with_letter s = (case s of [] \<Rightarrow> False | c # _ \<Rightarrow> is_ascii_letter c)"

subsection \<open>\<^verbatim>\<open>DataExtractor.extractTestCases\<close>\<close>

datatype error = TypeError | AutomationError | FileSystemError

datatype console_msg =
    ErrorParsingJSON
  | CouldNotExtract string
  | ErrorProcessingURL string error

record TestCase =
  inputs :: "json option"
  expected :: "json option"
  name :: string

text \<open>
  The \<^verbatim>\<open>try\<close> block of the loop body, on the object \<^verbatim>\<open>{}\<close>: a field that
  was never assigned is \<open>None\<close>. The first \<open>parse\<close> that throws leaves the block, and the
  \<^verbatim>\<open>catch\<close> writes one line to the error console.
\<close>

definition try_parse :: "(string \<Rightarrow> json option) \<Rightarrow> string \<Rightarrow> string \<Rightarrow>
    json option \<times> json option \<times> console_msg list" where
  "try_parse parse inputTxt expectedTxt =
     (case parse inputTxt of
        None \<Rightarrow> (None, None, [ErrorParsingJSON])
      | Some i \<Rightarrow>
          if begins_with_letter expectedTxt then (Some i, Some (JString expectedTxt), [])
          else (case parse expectedTxt of
                  None \<Rightarrow> (Some i, None, [ErrorParsingJSON])
                | Some e \<Rightarrow> (Some i, Some e, [])))"

text \<open>
  \<^verbatim>\<open>allTestcaseEle[i].locator(...).textContent()\<close>: an element stands for the text
  of its nested node; beyond the end of the array the read is \<^verbatim>\<open>undefined\<close> and
  the method call on it throws a \<^verbatim>\<open>TypeError\<close>.
\<close>

definition element_text :: "string list \<Rightarrow> nat \<Rightarrow> error + string" where
  "element_text allTestcaseEle i =
     (if i < length allTestcaseEle then Inr (allTestcaseEle ! i) else Inl TypeError)"

record cursors =
  testNum :: nat
  expectIdx :: nat
  inputIdx :: nat
  testcases :: "TestCase list"
  console :: "console_msg list"

definition initial_cursors :: cursors where
  "initial_cursors =
     \<lparr>testNum = 1, expectIdx = 0, inputIdx = 2, testcases = [], console = []\<rparr>"

definition loop_body :: "(string \<Rightarrow> json option) \<Rightarrow> string list \<Rightarrow> cursors \<Rightarrow> error + cursors" where
  "loop_body parse allTestcaseEle st =
     (case element_text allTestcaseEle (expectIdx st) of
        Inl err \<Rightarrow> Inl err
      | Inr expectedTxt \<Rightarrow>
          (case element_text allTestcaseEle (inputIdx st) of
             Inl err \<Rightarrow> Inl err
           | Inr inputTxt \<Rightarrow>
               (case try_parse parse inputTxt expectedTxt of
                  (i, e, msgs) \<Rightarrow>
                    Inr \<lparr>testNum = testNum st + 1,
                         expectIdx = inputIdx st + 1,
                         inputIdx = (inputIdx st + 1) + 2,
                         testcases = testcases st @
                           [\<lparr>inputs = i, expected = e,
                             name = ''Test Case '' @ decimal (testNum st)\<rparr>],
                         console = console st @ msgs\<rparr>)))"

function while_loop :: "(string \<Rightarrow> json option) \<Rightarrow> string list \<Rightarrow> cursors \<Rightarrow> error + cursors" where
  "while_loop parse allTestcaseEle st =
     (if inputIdx st < length allTestcaseEle then
        (case loop_body parse allTestcaseEle st of
           Inl err \<Rightarrow> Inl err
         | Inr st' \<Rightarrow> while_loop parse allTestcaseEle st')
      else Inr st)"
  by pat_completeness auto
termination
  by (relation "measure (\<lambda>(parse, allTestcaseEle, st). length allTestcaseEle - inputIdx st)")
     (auto simp: loop_body_def split: sum.splits prod.splits)

declare while_loop.simps [simp del]

definition extractTestCases :: "(string \<Rightarrow> json option) \<Rightarrow> string list \<Rightarrow> error + TestCase list" where
  "extractTestCases parse allTestcaseEle =
     (case while_loop parse allTestcaseEle initial_cursors of
        Inl err \<Rightarrow> Inl err
      | Inr st \<Rightarrow> Inr (testcases st))"

text \<open>The state after \<open>k\<close> runs of the loop body, for stating where the cursors are.\<close>

primrec after_iterations :: "(string \<Rightarrow> json option) \<Rightarrow> string list \<Rightarrow> nat \<Rightarrow> error + cursors" where
  "after_iterations parse allTestcaseEle 0 = Inr initial_cursors"
| "after_iterations parse allTestcaseEle (Suc k) =
     (case after_iterations parse allTestcaseEle k of
        Inl err \<Rightarrow> Inl err
      | Inr st \<Rightarrow> loop_body parse allTestcaseEle st)"

text \<open>
  The \<open>k\<close>-th record and the console lines of the \<open>k\<close>-th tuple as the specification
  describes them (\<open>k\<close> from 0): expected value read at index \<open>3k\<close>, input value at index
  \<open>3k + 2\<close>, name \<^verbatim>\<open>Test Case <k+1>\<close>.
\<close>

definition spec_testcase :: "(string \<Rightarrow> json option) \<Rightarrow> string list \<Rightarrow> nat \<Rightarrow> TestCase" where
  "spec_testcase parse fragments k =
     (case try_parse parse (fragments ! (3 * k + 2)) (fragments ! (3 * k)) of
        (i, e, msgs) \<Rightarrow> \<lparr>inputs = i, expected = e, name = ''Test Case '' @ decimal (k + 1)\<rparr>)"

definition spec_console :: "(string \<Rightarrow> json option) \<Rightarrow> string list \<Rightarrow> nat \<Rightarrow> console_msg list" where
  "spec_console parse fragments k =
     (case try_parse parse (fragments ! (3 * k + 2)) (fragments ! (3 * k)) of
        (i, e, msgs) \<Rightarrow> msgs)"

subsection \<open>\<^verbatim>\<open>DataExtractor.extractQuestionData\<close> and the markdown\<close>

definition CATEGORIES :: "string list" where
  "CATEGORIES =
     [''Arrays'', ''Binary Search Trees'', ''Binary Trees'', ''Dynamic Programming'',
      ''Famous Algorithms'', ''Graphs'', ''Greedy Algorithms'', ''Heaps'', ''Linked Lists'',
      ''Recursion'', ''Searching'', ''Sorting'', ''Stacks'', ''Strings'', ''Tries'']"

definition LANGUAGES :: "string list" where
  "LANGUAGES = [''Golang'', ''Java'', ''JavaScript'', ''Python'']"

definition BASE_URL :: string where
  "BASE_URL = ''https://www.algoexpert.io''"

definition START_URL :: string where
  "START_URL = ''https://www.algoexpert.io/questions''"

record CodingQuestion =
  title :: string
  description :: string
  exampleInput :: string
  exampleOutput :: string

text \<open>\<^verbatim>\<open>text.replace(/\n\s+/g, '\n').trim()\<close>\<close>

function replace_newline_spaces :: "string \<Rightarrow> string" where
  "replace_newline_spaces [] = []"
| "replace_newline_spaces (c # cs) =
     (if c = CHR 0x0A \<and> cs \<noteq> [] \<and> is_space (hd cs)
      then CHR 0x0A # replace_newline_spaces (dropWhile is_space cs)
      else c # replace_newline_spaces cs)"
  by pat_completeness auto
termination
proof (relation "measure length", goal_cases)
  case 1
  show ?case by simp
next
  case (2 c cs)
  show ?case using length_dropWhile_le [of is_space cs] by simp
next
  case (3 c cs)
  show ?case by simp
qed

definition removeNewlineSpaces :: "string \<Rightarrow> string" where
  "removeNewlineSpaces text = trim (replace_newline_spaces text)"

text \<open>\<^verbatim>\<open>Array.prototype.join\<close>\<close>

fun join :: "string \<Rightarrow> string list \<Rightarrow> string" where
  "join sep [] = []"
| "join sep [x] = x"
| "join sep (x # y # ys) = x @ sep @ join sep (y # ys)"

text \<open>
  What the browser and the file system answer while one question is visited.
  \<open>None\<close> in a \<open>_throws\<close> field is a call that returns, \<open>Some err\<close> one that throws.
  \<open>title_text\<close> is the result of \<^verbatim>\<open>getElementText(selectors.questionTitle)\<close>, which
  is \<^verbatim>\<open>null\<close> (\<open>None\<close>) when the lookup fails; \<open>testcase_elements\<close> holds the texts
  of the elements of \<^verbatim>\<open>selectors.testcaseData\<close> after the click on "Run Code" and
  the expansion of the collapsed test cases, or the error one of these calls threw.
\<close>

record visit =
  goToUrl_throws :: "error option"
  title_text :: "string option"
  paragraph_texts :: "error + string list"
  pre_texts :: "error + string list"
  createDirectory_throws :: "string \<Rightarrow> error option"
  testcase_elements :: "error + string list"
  saveMarkdown_throws :: "error option"
  saveJson_throws :: "error option"
  appendToFile_throws :: "error option"

definition extractQuestionData :: "visit \<Rightarrow> error + CodingQuestion" where
  "extractQuestionData v =
     (case title_text v of
        None \<Rightarrow> Inl TypeError
      | Some text \<Rightarrow>
          (case paragraph_texts v of
             Inl err \<Rightarrow> Inl err
           | Inr paragraphsTextContent \<Rightarrow>
               (case pre_texts v of
                  Inl err \<Rightarrow> Inl err
                | Inr preTagsTexContent \<Rightarrow>
                    if length preTagsTexContent < 2 then Inl TypeError
                    else Inr \<lparr>title = trim text,
                              description =
                                join [CHR 0x0A, CHR 0x0A]
                                  (map removeNewlineSpaces paragraphsTextContent),
                              exampleInput = trim (preTagsTexContent ! 0),
                              exampleOutput = trim (preTagsTexContent ! 1)\<rparr>)))"

definition generateQuestionMarkdown :: "CodingQuestion \<Rightarrow> string" where
  "generateQuestionMarkdown codingQuestion =
     [CHR 0x0A] @ ''## '' @ title codingQuestion @ [CHR 0x0A, CHR 0x0A]
     @ description codingQuestion @ [CHR 0x0A, CHR 0x0A]
     @ ''### Sample Input'' @ [CHR 0x0A] @ ''```'' @ [CHR 0x0A]
     @ exampleInput codingQuestion @ [CHR 0x0A] @ ''```'' @ [CHR 0x0A, CHR 0x0A]
     @ ''### Sample Output'' @ [CHR 0x0A] @ ''```'' @ [CHR 0x0A]
     @ exampleOutput codingQuestion @ [CHR 0x0A] @ ''```'' @ [CHR 0x0A]"

subsection \<open>\<^verbatim>\<open>Scraper.run\<close>\<close>

text \<open>\<^verbatim>\<open>title.replace(/\s+/g, '-')\<close>\<close>

function replace_spaces :: "string \<Rightarrow> string" where
  "replace_spaces [] = []"
| "replace_spaces (c # cs) =
     (if is_space c then CHR ''-'' # replace_spaces (dropWhile is_space cs)
      else c # replace_spaces cs)"
  by pat_completeness auto
termination
proof (relation "measure length", goal_cases)
  case 1
  show ?case by simp
next
  case (2 c cs)
  show ?case using length_dropWhile_le [of is_space cs] by simp
next
  case (3 c cs)
  show ?case by simp
qed

definition numPrefix :: "nat \<Rightarrow> string" where
  "numPrefix questionNum =
     (if questionNum > 9 then decimal questionNum @ ''-''
      else ''0'' @ decimal questionNum @ ''-'')"

definition dirName :: "nat \<Rightarrow> string \<Rightarrow> string" where
  "dirName questionNum questionTitle = numPrefix questionNum @ replace_spaces questionTitle"

text \<open>
  \<^verbatim>\<open>path.join\<close> of Node.js on POSIX: the non-empty arguments are joined with
  \<^verbatim>\<open>/\<close> and the result is normalised. \<open>normalize_segments\<close> is the walk of
  \<^verbatim>\<open>normalizeString\<close> over the segments between the slashes: an empty segment and
  \<^verbatim>\<open>.\<close> are dropped, \<^verbatim>\<open>..\<close> removes the segment before it (and is kept, in a
  relative path, when there is none to remove), every other segment is kept.
\<close>

fun normalize_segments :: "bool \<Rightarrow> string list \<Rightarrow> string list \<Rightarrow> string list" where
  "normalize_segments allowAboveRoot [] res = res"
| "normalize_segments allowAboveRoot (s # segments) res =
     normalize_segments allowAboveRoot segments
       (if s = [] \<or> s = ''.'' then res
        else if s = ''..'' then
          (if res \<noteq> [] \<and> last res \<noteq> ''..'' then butlast res
           else if allowAboveRoot then res @ [''..'']
           else res)
        else res @ [s])"

definition normalize :: "string \<Rightarrow> string" where
  "normalize path =
     (if path = [] then ''.''
      else
        (let isAbsolute = (hd path = CHR ''/'');
             trailingSeparator = (last path = CHR ''/'');
             res = join ''/'' (normalize_segments (\<not> isAbsolute) (split_on CHR ''/'' path) [])
         in if res = [] then
              (if isAbsolute then ''/'' else if trailingSeparator then ''./'' else ''.'')
            else (if isAbsolute then ''/'' else [])
                 @ res @ (if trailingSeparator then ''/'' else [])))"

definition path_join :: "string list \<Rightarrow> string" where
  "path_join args =
     (if filter (\<lambda>arg. arg \<noteq> []) args = [] then ''.''
      else normalize (join ''/'' (filter (\<lambda>arg. arg \<noteq> []) args)))"

text \<open>
  The trace of one question: the calls on the page and on the file system that
  returned, in the order in which they returned, and the lines \<^verbatim>\<open>run\<close> itself
  writes with \<^verbatim>\<open>console.warn\<close> and \<^verbatim>\<open>console.error\<close>. A path is the string
  that \<^verbatim>\<open>path.join\<close> returned.
\<close>

datatype event =
    GoToUrl string
  | ExtractQuestionData
  | ConsoleWarn console_msg
  | ConsoleError console_msg
  | CreateDirectory string
  | ExtractTestCases
  | SaveMarkdown string string
  | SaveJson string "TestCase list"
  | AppendToFile string string

text \<open>
  The events that leave something on the disk: \<open>is_persistence\<close> holds of every call
  that creates a directory or writes a file, \<open>is_write\<close> of those that write a file.
\<close>

fun is_persistence :: "event \<Rightarrow> bool" where
  "is_persistence (CreateDirectory p) = True"
| "is_persistence (SaveMarkdown p c) = True"
| "is_persistence (SaveJson p d) = True"
| "is_persistence (AppendToFile f c) = True"
| "is_persistence e = False"

fun is_write :: "event \<Rightarrow> bool" where
  "is_write (SaveMarkdown p c) = True"
| "is_write (SaveJson p d) = True"
| "is_write (AppendToFile f c) = True"
| "is_write e = False"

text \<open>The set \<^verbatim>\<open>this.scrapedUrls\<close> and the content of \<^verbatim>\<open>urls_to_skip.txt\<close>.\<close>

record scraper =
  scrapedUrls :: "string set"
  urls_to_skip_txt :: string

text \<open>How control leaves the \<^verbatim>\<open>try\<close> block.\<close>

datatype completion = Thrown error | Continued | Completed

fun createDirectories :: "(string \<Rightarrow> error option) \<Rightarrow> string list \<Rightarrow>
    event list \<times> error option" where
  "createDirectories throws [] = ([], None)"
| "createDirectories throws (p # ps) =
     (case throws p of
        Some err \<Rightarrow> ([], Some err)
      | None \<Rightarrow>
          (case createDirectories throws ps of
             (created, r) \<Rightarrow> (CreateDirectory p # created, r)))"

definition try_block :: "(string \<Rightarrow> json option) \<Rightarrow> string \<Rightarrow> string \<Rightarrow> nat \<Rightarrow> string \<Rightarrow>
    visit \<Rightarrow> scraper \<Rightarrow> event list \<times> CodingQuestion option \<times> completion \<times> scraper" where
  "try_block parse downloadBasePath category questionNum url v st =
     (case goToUrl_throws v of
        Some err \<Rightarrow> ([], None, Thrown err, st)
      | None \<Rightarrow>
     (case extractQuestionData v of
        Inl err \<Rightarrow> ([GoToUrl url], None, Thrown err, st)
      | Inr questionData \<Rightarrow>
          if title questionData = [] \<or> description questionData = [] then
            ([GoToUrl url, ExtractQuestionData, ConsoleWarn (CouldNotExtract url)],
             Some questionData, Continued, st)
          else
            (let dirPath = path_join [downloadBasePath, category,
                                      dirName questionNum (title questionData)];
                 markdownPath = path_join [dirPath, ''README.md''];
                 jsonPath = path_join [dirPath, ''testcases.json''];
                 ev1 = [GoToUrl url, ExtractQuestionData]
             in
             (case createDirectories (createDirectory_throws v)
                     (dirPath # map (\<lambda>language. path_join [dirPath, language]) LANGUAGES) of
                (created, Some err) \<Rightarrow> (ev1 @ created, Some questionData, Thrown err, st)
              | (created, None) \<Rightarrow>
             (case testcase_elements v of
                Inl err \<Rightarrow> (ev1 @ created, Some questionData, Thrown err, st)
              | Inr allTestcaseEle \<Rightarrow>
             (case extractTestCases parse allTestcaseEle of
                Inl err \<Rightarrow> (ev1 @ created, Some questionData, Thrown err, st)
              | Inr tcs \<Rightarrow>
             (case saveMarkdown_throws v of
                Some err \<Rightarrow>
                  (ev1 @ created @ [ExtractTestCases], Some questionData, Thrown err, st)
              | None \<Rightarrow>
             (case saveJson_throws v of
                Some err \<Rightarrow>
                  (ev1 @ created @
                     [ExtractTestCases,
                      SaveMarkdown markdownPath (generateQuestionMarkdown questionData)],
                   Some questionData, Thrown err, st)
              | None \<Rightarrow>
             (case appendToFile_throws v of
                Some err \<Rightarrow>
                  (ev1 @ created @
                     [ExtractTestCases,
                      SaveMarkdown markdownPath (generateQuestionMarkdown questionData),
                      SaveJson jsonPath tcs],
                   Some questionData, Thrown err, st)
              | None \<Rightarrow>
                  (ev1 @ created @
                     [ExtractTestCases,
                      SaveMarkdown markdownPath (generateQuestionMarkdown questionData),
                      SaveJson jsonPath tcs,
                      AppendToFile ''urls_to_skip.txt'' url],
                   Some questionData, Completed,
                   st\<lparr>urls_to_skip_txt := urls_to_skip_txt st @ url @ [CHR 0x0A],
                      scrapedUrls := insert url (scrapedUrls st)\<rparr>))))))))))"

datatype status = Skipped | Invalid | Failed error | Committed

record item =
  item_category :: string
  item_num :: nat
  item_url :: string
  item_status :: status
  item_events :: "event list"
  item_question :: "CodingQuestion option"

text \<open>
  One turn of \<^verbatim>\<open>while (questionQueue.length > 0)\<close> on the identifier that
  \<^verbatim>\<open>shift()\<close> took from the queue; every branch ends with \<^verbatim>\<open>questionNum++\<close>.
\<close>

definition scrape_question :: "(string \<Rightarrow> json option) \<Rightarrow> string \<Rightarrow> string \<Rightarrow> nat \<Rightarrow> string \<Rightarrow>
    visit \<Rightarrow> scraper \<Rightarrow> item \<times> scraper" where
  "scrape_question parse downloadBasePath category questionNum url v st =
     (if url \<in> scrapedUrls st then
        (\<lparr>item_category = category, item_num = questionNum, item_url = url,
          item_status = Skipped, item_events = [], item_question = None\<rparr>, st)
      else
        (case try_block parse downloadBasePath category questionNum url v st of
           (evs, q, Thrown err, st') \<Rightarrow>
             (\<lparr>item_category = category, item_num = questionNum, item_url = url,
               item_status = Failed err,
               item_events = evs @ [ConsoleError (ErrorProcessingURL url err)],
               item_question = q\<rparr>, st')
         | (evs, q, Continued, st') \<Rightarrow>
             (\<lparr>item_category = category, item_num = questionNum, item_url = url,
               item_status = Invalid, item_events = evs, item_question = q\<rparr>, st')
         | (evs, q, Completed, st') \<Rightarrow>
             (\<lparr>item_category = category, item_num = questionNum, item_url = url,
               item_status = Committed, item_events = evs, item_question = q\<rparr>, st')))"

fun while_queue :: "(string \<Rightarrow> json option) \<Rightarrow> string \<Rightarrow> (nat \<Rightarrow> visit) \<Rightarrow> string \<Rightarrow> nat \<Rightarrow>
    string list \<Rightarrow> scraper \<Rightarrow> item list \<times> scraper" where
  "while_queue parse downloadBasePath visits category questionNum [] st = ([], st)"
| "while_queue parse downloadBasePath visits category questionNum (url # questionQueue) st =
     (case scrape_question parse downloadBasePath category questionNum url
             (visits questionNum) st of
        (it, st') \<Rightarrow>
          (case while_queue parse downloadBasePath visits category (questionNum + 1)
                  questionQueue st' of
             (its, st'') \<Rightarrow> (it # its, st'')))"

fun for_categories :: "(string \<Rightarrow> json option) \<Rightarrow> string \<Rightarrow> (string \<Rightarrow> nat \<Rightarrow> visit) \<Rightarrow>
    (string \<times> string list) list \<Rightarrow> scraper \<Rightarrow> item list \<times> scraper" where
  "for_categories parse downloadBasePath visits [] st = ([], st)"
| "for_categories parse downloadBasePath visits ((category, questionQueue) # rest) st =
     (case while_queue parse downloadBasePath (visits category) category 1 questionQueue st of
        (its, st') \<Rightarrow>
          (case for_categories parse downloadBasePath visits rest st' of
             (its', st'') \<Rightarrow> (its @ its', st'')))"

text \<open>\<^verbatim>\<open>Map.prototype.set\<close> on a map kept in insertion order.\<close>

fun map_set :: "'k \<Rightarrow> 'v \<Rightarrow> ('k \<times> 'v) list \<Rightarrow> ('k \<times> 'v) list" where
  "map_set k v [] = [(k, v)]"
| "map_set k v ((k', v') # m) =
     (if k = k' then (k, v) # m else (k', v') # map_set k v m)"

text \<open>
  \<^verbatim>\<open>`${baseUrl}${href}`\<close>, where \<^verbatim>\<open>getAttribute('href')\<close> is \<^verbatim>\<open>null\<close>
  (\<open>None\<close>) for a link without the attribute.
\<close>

definition question_url :: "string \<Rightarrow> string option \<Rightarrow> string" where
  "question_url baseUrl href = baseUrl @ (case href of None \<Rightarrow> ''null'' | Some h \<Rightarrow> h)"

fun getQuestionsByCategory :: "(string \<Rightarrow> error + string option list) \<Rightarrow> string list \<Rightarrow> string \<Rightarrow>
    (string \<times> string list) list \<Rightarrow> error + (string \<times> string list) list" where
  "getQuestionsByCategory links [] baseUrl questionsByCategory = Inr questionsByCategory"
| "getQuestionsByCategory links (category # categories) baseUrl questionsByCategory =
     (case links category of
        Inl err \<Rightarrow> Inl err
      | Inr hrefs \<Rightarrow>
          getQuestionsByCategory links categories baseUrl
            (map_set category (map (question_url baseUrl) hrefs) questionsByCategory))"

text \<open>\<^verbatim>\<open>data.split('\n')\<close>\<close>

definition split_lines :: "string \<Rightarrow> string list" where
  "split_lines data = split_on (CHR 0x0A) data"

datatype read_result = ENOENT | ReadError error | Data string

text \<open>
  The world of one run: what reading and creating \<^verbatim>\<open>urls_to_skip.txt\<close> answer,
  whether the navigation to the start page throws, the \<^verbatim>\<open>href\<close> attributes of the
  links of each category in document order, and the visit of the question at each
  position of each category. The connection to the browser and its closing
  (\<^verbatim>\<open>BrowserManager\<close>) are left out.
\<close>

record world =
  readUrlsToSkipFile :: read_result
  createUrlsToSkipFile_throws :: "error option"
  start_throws :: "error option"
  category_links :: "string \<Rightarrow> error + string option list"
  visit_at :: "string \<Rightarrow> nat \<Rightarrow> visit"

definition initializeScrapedUrls :: "world \<Rightarrow> error + scraper" where
  "initializeScrapedUrls w =
     (case readUrlsToSkipFile w of
        Data content \<Rightarrow>
          if content = [] then Inr \<lparr>scrapedUrls = {}, urls_to_skip_txt = content\<rparr>
          else Inr \<lparr>scrapedUrls = set (map trim (split_lines content)),
                    urls_to_skip_txt = content\<rparr>
      | ENOENT \<Rightarrow>
          (case createUrlsToSkipFile_throws w of
             Some err \<Rightarrow> Inl err
           | None \<Rightarrow> Inr \<lparr>scrapedUrls = {}, urls_to_skip_txt = []\<rparr>)
      | ReadError err \<Rightarrow> Inl err)"

definition Scraper_run :: "(string \<Rightarrow> json option) \<Rightarrow> string \<Rightarrow> world \<Rightarrow> error + (item list \<times> scraper)" where
  "Scraper_run parse downloadBasePath w =
     (case initializeScrapedUrls w of
        Inl err \<Rightarrow> Inl err
      | Inr st \<Rightarrow>
          (case start_throws w of
             Some err \<Rightarrow> Inl err
           | None \<Rightarrow>
               (case getQuestionsByCategory (category_links w) CATEGORIES BASE_URL [] of
                  Inl err \<Rightarrow> Inl err
                | Inr questionsByCategory \<Rightarrow>
                    Inr (for_categories parse downloadBasePath (visit_at w)
                           questionsByCategory st))))"

subsection \<open>A worked example\<close>

text \<open>
  A visit on which every call returns, the question it shows, the state of a run that
  starts without a skip-list, and a world whose category \<^verbatim>\<open>Arrays\<close> lists three
  questions, every visit being that one.
\<close>

definition example_url :: string where
  "example_url = ''https://www.algoexpert.io/questions/two-number-sum''"

definition example_visit :: visit where
  "example_visit =
     \<lparr>goToUrl_throws = None,
      title_text = Some ''Two Number Sum'',
      paragraph_texts = Inr [''Write a function.''],
      pre_texts = Inr [''[3, 5]'', ''8''],
      createDirectory_throws = (\<lambda>p. None),
      testcase_elements = Inr [''8'', ''hidden'', ''[3, 5]''],
      saveMarkdown_throws = None,
      saveJson_throws = None,
      appendToFile_throws = None\<rparr>"

definition example_question :: CodingQuestion where
  "example_question =
     \<lparr>title = ''Two Number Sum'', description = ''Write a function.'',
      exampleInput = ''[3, 5]'', exampleOutput = ''8''\<rparr>"

definition fresh :: scraper where
  "fresh = \<lparr>scrapedUrls = {}, urls_to_skip_txt = []\<rparr>"

definition example_world :: world where
  "example_world =
     \<lparr>readUrlsToSkipFile = ENOENT,
      createUrlsToSkipFile_throws = None,
      start_throws = None,
      category_links =
        (\<lambda>category. if category = ''Arrays''
                    then Inr [Some ''/questions/three-number-sum'',
                              Some ''/questions/sorted-squared-array'',
                              Some ''/questions/two-number-sum'']
                    else Inr []),
      visit_at = (\<lambda>category questionNum. example_visit)\<rparr>"

text \<open>
  The same visit with a title that holds a slash; the world that starts from a skip-list
  whose last line is not ended by a newline; and a world whose only link carries a
  blank at the end of its \<^verbatim>\<open>href\<close>.
\<close>

definition slash_visit :: visit where
  "slash_visit = example_visit\<lparr>title_text := Some ''Min/Max Stack''\<rparr>"

definition unterminated_world :: world where
  "unterminated_world = example_world\<lparr>readUrlsToSkipFile := Data ''https://old''\<rparr>"

definition blank_world :: world where
  "blank_world =
     example_world
       \<lparr>category_links :=
          (\<lambda>category. if category = ''Arrays'' then Inr [Some ''/questions/a ''] else Inr [])\<rparr>"

text \<open>The world of a second run: the first world, with the skip-list the first run left.\<close>

definition second_world :: "world \<Rightarrow> world" where
  "second_world w =
     (case Scraper_run JSON_parse ''/dl'' w of
        Inl err \<Rightarrow> w
      | Inr (its, st) \<Rightarrow> w\<lparr>readUrlsToSkipFile := Data (urls_to_skip_txt st)\<rparr>)"

definition statuses :: "error + (item list \<times> scraper) \<Rightarrow> status list" where
  "statuses r = (case r of Inl err \<Rightarrow> [] | Inr (its, st) \<Rightarrow> map item_status its)"

definition persistence_events :: "error + (item list \<times> scraper) \<Rightarrow> event list" where
  "persistence_events r =
     (case r of Inl err \<Rightarrow> []
      | Inr (its, st) \<Rightarrow> filter is_persistence (concat (map item_events its)))"

section \<open>Properties\<close>

subsection \<open>The pairing loop\<close>

lemma after_iterations_cursors:
  "k \<le> length els div 3 \<Longrightarrow>
   after_iterations parse els k =
     Inr \<lparr>testNum = k + 1, expectIdx = 3 * k, inputIdx = 3 * k + 2,
          testcases = map (spec_testcase parse els) [0..<k],
          console = concat (map (spec_console parse els) [0..<k])\<rparr>"
proof (induction k)
  case 0
  show ?case by (simp add: initial_cursors_def)
next
  case (Suc k)
  then have lt: "3 * k + 2 < length els" by arith
  from Suc have IH: "after_iterations parse els k =
     Inr \<lparr>testNum = k + 1, expectIdx = 3 * k, inputIdx = 3 * k + 2,
          testcases = map (spec_testcase parse els) [0..<k],
          console = concat (map (spec_console parse els) [0..<k])\<rparr>" by simp
  obtain i e msgs where tp: "try_parse parse (els ! (3 * k + 2)) (els ! (3 * k)) = (i, e, msgs)"
    by (cases "try_parse parse (els ! (3 * k + 2)) (els ! (3 * k))") auto
  have tc: "spec_testcase parse els k =
      \<lparr>inputs = i, expected = e, name = ''Test Case '' @ decimal (k + 1)\<rparr>"
    unfolding spec_testcase_def tp by simp
  have co: "spec_console parse els k = msgs"
    unfolding spec_console_def tp by simp
  have "loop_body parse els
     \<lparr>testNum = k + 1, expectIdx = 3 * k, inputIdx = 3 * k + 2,
          testcases = map (spec_testcase parse els) [0..<k],
          console = concat (map (spec_console parse els) [0..<k])\<rparr> =
     Inr \<lparr>testNum = Suc k + 1, expectIdx = 3 * Suc k, inputIdx = 3 * Suc k + 2,
          testcases = map (spec_testcase parse els) [0..<Suc k],
          console = concat (map (spec_console parse els) [0..<Suc k])\<rparr>"
    unfolding loop_body_def element_text_def using lt tp by (simp add: tc co)
  then show ?case by (simp add: IH)
qed

lemma while_loop_after_iterations:
  "after_iterations parse els k = Inr st \<Longrightarrow>
   while_loop parse els initial_cursors = while_loop parse els st"
proof (induction k arbitrary: st)
  case 0
  then show ?case by simp
next
  case (Suc k)
  then obtain st0 where st0: "after_iterations parse els k = Inr st0"
    and body: "loop_body parse els st0 = Inr st"
    by (auto split: sum.splits)
  have "inputIdx st0 < length els"
    using body by (auto simp: loop_body_def element_text_def split: if_splits sum.splits prod.splits)
  then have "while_loop parse els st0 = while_loop parse els st"
    using body by (subst while_loop.simps) simp
  with Suc.IH [OF st0] show ?case by simp
qed

lemma while_loop_closed:
  "while_loop parse els initial_cursors =
     Inr \<lparr>testNum = length els div 3 + 1, expectIdx = 3 * (length els div 3),
          inputIdx = 3 * (length els div 3) + 2,
          testcases = map (spec_testcase parse els) [0..<length els div 3],
          console = concat (map (spec_console parse els) [0..<length els div 3])\<rparr>"
proof -
  let ?n = "length els div 3"
  let ?st = "\<lparr>testNum = ?n + 1, expectIdx = 3 * ?n, inputIdx = 3 * ?n + 2,
          testcases = map (spec_testcase parse els) [0..<?n],
          console = concat (map (spec_console parse els) [0..<?n])\<rparr>"
  have a: "after_iterations parse els ?n = Inr ?st"
    by (rule after_iterations_cursors) simp
  have "\<not> 3 * ?n + 2 < length els" by arith
  then have "\<not> inputIdx ?st < length els" by simp
  then have "while_loop parse els ?st = Inr ?st"
    by (subst while_loop.simps) simp
  with while_loop_after_iterations [OF a] show ?thesis by simp
qed

lemma extractTestCases_closed:
  "extractTestCases parse els = Inr (map (spec_testcase parse els) [0..<length els div 3])"
  by (simp add: extractTestCases_def while_loop_closed)

lemma spec_testcase_fields:
  "inputs (spec_testcase parse els k) = fst (try_parse parse (els ! (3 * k + 2)) (els ! (3 * k)))"
  "expected (spec_testcase parse els k) =
     fst (snd (try_parse parse (els ! (3 * k + 2)) (els ! (3 * k))))"
  "name (spec_testcase parse els k) = ''Test Case '' @ decimal (k + 1)"
  by (simp_all add: spec_testcase_def split: prod.splits)

text \<open>
  Claim C1, as stated, fails: on the fragments \<^verbatim>\<open>["5", "[1,2,3]", "x", "True", "[4,5]", "y"]\<close>
  the loop does not yield the two records of the claim, because it reads the input
  values at the indices 2 and 5, where this sequence holds \<^verbatim>\<open>x\<close> and \<^verbatim>\<open>y\<close>.
\<close>

theorem pairing_example_counterexample:
  "extractTestCases JSON_parse [''5'', ''[1,2,3]'', ''x'', ''True'', ''[4,5]'', ''y''] \<noteq>
     Inr [\<lparr>inputs = Some (JArray [JNum 1, JNum 2, JNum 3]), expected = Some (JNum 5),
            name = ''Test Case 1''\<rparr>,
          \<lparr>inputs = Some (JArray [JNum 4, JNum 5]), expected = Some (JString ''True''),
            name = ''Test Case 2''\<rparr>]"
  by code_simp

text \<open>
  Claim C1, amended: with the input values at the indices 2 and 5, that is on
  \<^verbatim>\<open>["5", "x", "[1,2,3]", "True", "y", "[4,5]"]\<close>, the loop yields exactly the records
  \<^verbatim>\<open>{inputs: [1,2,3], expected: 5, name: "Test Case 1"}\<close> and
  \<^verbatim>\<open>{inputs: [4,5], expected: "True", name: "Test Case 2"}\<close>; on the sequence of the
  claim it yields two records that carry nothing but their names.
\<close>

theorem pairing_example:
  "extractTestCases JSON_parse [''5'', ''x'', ''[1,2,3]'', ''True'', ''y'', ''[4,5]''] =
     Inr [\<lparr>inputs = Some (JArray [JNum 1, JNum 2, JNum 3]), expected = Some (JNum 5),
            name = ''Test Case 1''\<rparr>,
          \<lparr>inputs = Some (JArray [JNum 4, JNum 5]), expected = Some (JString ''True''),
            name = ''Test Case 2''\<rparr>]
   \<and> extractTestCases JSON_parse [''5'', ''[1,2,3]'', ''x'', ''True'', ''[4,5]'', ''y''] =
     Inr [\<lparr>inputs = None, expected = None, name = ''Test Case 1''\<rparr>,
          \<lparr>inputs = None, expected = None, name = ''Test Case 2''\<rparr>]"
  by code_simp

text \<open>
  Claim C2: the loop starts with \<open>expectIdx = 0\<close> and \<open>inputIdx = 2\<close>; after \<open>k\<close> turns
  the cursors stand at \<open>3k\<close> and \<open>3k + 2\<close> and \<open>testNum\<close> at \<open>k + 1\<close>, the loop goes
  on exactly while \<open>inputIdx\<close> is in bounds, the \<open>k\<close>-th record (from 0) takes its
  expected value from index \<open>3k\<close> and its input value from index \<open>3k + 2\<close>, and it is
  named \<^verbatim>\<open>Test Case <k+1>\<close> whatever the parser answers.
\<close>

theorem cursor_walk:
  assumes "k \<le> length fragments div 3"
  shows "after_iterations parse fragments k =
           Inr \<lparr>testNum = k + 1, expectIdx = 3 * k, inputIdx = 3 * k + 2,
                testcases = map (spec_testcase parse fragments) [0..<k],
                console = concat (map (spec_console parse fragments) [0..<k])\<rparr>
         \<and> (3 * k + 2 < length fragments \<longleftrightarrow> k < length fragments div 3)
         \<and> extractTestCases parse fragments =
             Inr (map (spec_testcase parse fragments) [0..<length fragments div 3])
         \<and> (\<forall>j. name (spec_testcase parse fragments j) = ''Test Case '' @ decimal (j + 1))"
proof -
  have "3 * k + 2 < length fragments \<longleftrightarrow> k < length fragments div 3" by arith
  moreover have "\<forall>j. name (spec_testcase parse fragments j) = ''Test Case '' @ decimal (j + 1)"
    by (simp add: spec_testcase_def split: prod.splits)
  ultimately show ?thesis
    using after_iterations_cursors [OF assms, of parse] extractTestCases_closed [of parse fragments]
    by blast
qed

theorem cursor_walk_witness:
  "(1::nat) \<le> length [''5'', ''x'', ''[1,2,3]'', ''True''] div 3
   \<and> after_iterations JSON_parse [''5'', ''x'', ''[1,2,3]'', ''True''] 1 =
       Inr \<lparr>testNum = 2, expectIdx = 3, inputIdx = 5,
            testcases = [\<lparr>inputs = Some (JArray [JNum 1, JNum 2, JNum 3]),
                          expected = Some (JNum 5), name = ''Test Case 1''\<rparr>],
            console = []\<rparr>"
proof -
  have h: "(1::nat) \<le> length [''5'', ''x'', ''[1,2,3]'', ''True''] div 3" by simp
  have tc: "spec_testcase JSON_parse [''5'', ''x'', ''[1,2,3]'', ''True''] 0 =
      \<lparr>inputs = Some (JArray [JNum 1, JNum 2, JNum 3]),
                          expected = Some (JNum 5), name = ''Test Case 1''\<rparr>"
    by code_simp
  have co: "spec_console JSON_parse [''5'', ''x'', ''[1,2,3]'', ''True''] 0 = []"
    by code_simp
  show ?thesis
    using cursor_walk [OF h, of JSON_parse] by (simp add: tc co)
qed

text \<open>
  Claim C9: the loop never reads beyond the end of the fragment sequence (a read out of
  range is the error \<open>TypeError\<close> of \<open>element_text\<close>, and no turn of the loop ends in an
  error: the reads at \<open>3k\<close> and \<open>3k + 2\<close> are in range for every \<open>k\<close> below
  \<open>length div 3\<close>); a sequence of length \<open>L\<close> yields exactly \<open>L div 3\<close> records, and a
  sequence shorter than 3 yields none.
\<close>

theorem extractTestCases_in_bounds:
  "(\<forall>k. k \<le> length fragments div 3 \<longrightarrow> (\<exists>st. after_iterations parse fragments k = Inr st))
   \<and> (\<forall>k. k < length fragments div 3 \<longrightarrow>
          element_text fragments (3 * k) = Inr (fragments ! (3 * k))
        \<and> element_text fragments (3 * k + 2) = Inr (fragments ! (3 * k + 2)))
   \<and> (\<exists>tcs. extractTestCases parse fragments = Inr tcs \<and> length tcs = length fragments div 3)
   \<and> (length fragments < 3 \<longrightarrow> extractTestCases parse fragments = Inr [])"
proof -
  have a: "\<forall>k. k \<le> length fragments div 3 \<longrightarrow> (\<exists>st. after_iterations parse fragments k = Inr st)"
    using after_iterations_cursors [of _ fragments parse] by blast
  have b: "\<forall>k. k < length fragments div 3 \<longrightarrow>
          element_text fragments (3 * k) = Inr (fragments ! (3 * k))
        \<and> element_text fragments (3 * k + 2) = Inr (fragments ! (3 * k + 2))"
  proof (intro allI impI)
    fix k assume "k < length fragments div 3"
    then have "3 * k + 2 < length fragments" by arith
    then show "element_text fragments (3 * k) = Inr (fragments ! (3 * k))
        \<and> element_text fragments (3 * k + 2) = Inr (fragments ! (3 * k + 2))"
      by (simp add: element_text_def)
  qed
  have c: "\<exists>tcs. extractTestCases parse fragments = Inr tcs \<and> length tcs = length fragments div 3"
    by (simp add: extractTestCases_closed)
  have d: "length fragments < 3 \<longrightarrow> extractTestCases parse fragments = Inr []"
    by (simp add: extractTestCases_closed)
  from a b c d show ?thesis by blast
qed

theorem extractTestCases_in_bounds_witness:
  "length [''7'', ''skipped''] < 3 \<and> extractTestCases JSON_parse [''7'', ''skipped''] = Inr []"
  using extractTestCases_in_bounds [of "[''7'', ''skipped'']" JSON_parse] by simp

subsection \<open>The type sniff and the parse failures\<close>

text \<open>
  Claim C5, as stated, fails twice. The test \<^verbatim>\<open>/^[a-zA-Z]/\<close> is applied to the text
  as it is, not to the trimmed text: the trimmed text of \<^verbatim>\<open>" True"\<close> begins with a
  letter, yet the field is not the raw string (the parser is tried, throws, and the
  field stays unset). And the expected value is looked at only after the input value
  was parsed: with the input \<^verbatim>\<open>y\<close> the expected value \<^verbatim>\<open>True\<close> is never kept.
\<close>

theorem expected_sniff_counterexample:
  "begins_with_letter (trim '' True'')
   \<and> extractTestCases JSON_parse ['' True'', ''hidden'', ''[4,5]''] =
       Inr [\<lparr>inputs = Some (JArray [JNum 4, JNum 5]), expected = None, name = ''Test Case 1''\<rparr>]
   \<and> begins_with_letter (trim ''True'')
   \<and> extractTestCases JSON_parse [''True'', ''hidden'', ''y''] =
       Inr [\<lparr>inputs = None, expected = None, name = ''Test Case 1''\<rparr>]"
  by code_simp

text \<open>
  Claim C5, amended: for every tuple whose input fragment parses, the expected field is
  the raw text verbatim if the text itself (untrimmed) begins with an ASCII letter, and
  otherwise the result of parsing it (unset when the parser throws); when the input
  fragment does not parse, the expected field is left unset.
\<close>

theorem expected_sniff:
  assumes "k < length fragments div 3"
  shows "\<exists>tcs. extractTestCases parse fragments = Inr tcs \<and> k < length tcs
     \<and> (case parse (fragments ! (3 * k + 2)) of
          None \<Rightarrow> expected (tcs ! k) = None
        | Some i \<Rightarrow>
            expected (tcs ! k) =
              (if begins_with_letter (fragments ! (3 * k))
               then Some (JString (fragments ! (3 * k)))
               else parse (fragments ! (3 * k))))"
  using assms
  by (simp add: extractTestCases_closed spec_testcase_fields try_parse_def
           split: option.splits)

theorem expected_sniff_witness:
  "(0::nat) < length [''True'', ''hidden'', ''[4,5]''] div 3
   \<and> (\<exists>tcs. extractTestCases JSON_parse [''True'', ''hidden'', ''[4,5]''] = Inr tcs
        \<and> expected (tcs ! 0) = Some (JString ''True''))"
proof -
  have h: "(0::nat) < length [''True'', ''hidden'', ''[4,5]''] div 3" by simp
  have p: "JSON_parse ''[4,5]'' = Some (JArray [JNum 4, JNum 5])" by code_simp
  have l: "begins_with_letter ''True''" by code_simp
  show ?thesis
    using expected_sniff [OF h, of JSON_parse] by (auto simp: p l)
qed

text \<open>
  Claim C6, as stated, fails: when the input fragment does not parse, the expected field
  is left unset as well, although its own text \<^verbatim>\<open>5\<close> parses.
\<close>

theorem parse_failure_counterexample:
  "JSON_parse ''5'' = Some (JNum 5)
   \<and> JSON_parse ''x'' = None
   \<and> extractTestCases JSON_parse [''5'', ''hidden'', ''x''] =
       Inr [\<lparr>inputs = None, expected = None, name = ''Test Case 1''\<rparr>]"
  by code_simp

text \<open>
  Claim C6, amended: a parse failure never stops the extraction: every tuple of the
  sequence yields its record, named in order, and each failing tuple writes one line
  to the error console. When the input fragment does not parse, both \<open>inputs\<close> and
  \<open>expected\<close> of that record are left unset; when the input parses and the expected
  fragment (not letter-initial) does not, \<open>inputs\<close> is kept and only \<open>expected\<close> is
  left unset.
\<close>

theorem parse_failure_isolated:
  assumes "k < length fragments div 3"
  shows "\<exists>tcs st. extractTestCases parse fragments = Inr tcs
     \<and> tcs = map (spec_testcase parse fragments) [0..<length fragments div 3]
     \<and> length tcs = length fragments div 3
     \<and> while_loop parse fragments initial_cursors = Inr st
     \<and> testcases st = tcs
     \<and> console st = concat (map (spec_console parse fragments) [0..<length fragments div 3])
     \<and> name (tcs ! k) = ''Test Case '' @ decimal (k + 1)
     \<and> (case parse (fragments ! (3 * k + 2)) of
          None \<Rightarrow> inputs (tcs ! k) = None \<and> expected (tcs ! k) = None
                   \<and> spec_console parse fragments k = [ErrorParsingJSON]
        | Some i \<Rightarrow>
            inputs (tcs ! k) = Some i
            \<and> (if begins_with_letter (fragments ! (3 * k))
               then expected (tcs ! k) = Some (JString (fragments ! (3 * k)))
                    \<and> spec_console parse fragments k = []
               else (case parse (fragments ! (3 * k)) of
                       None \<Rightarrow> expected (tcs ! k) = None
                                \<and> spec_console parse fragments k = [ErrorParsingJSON]
                     | Some e \<Rightarrow> expected (tcs ! k) = Some e
                                \<and> spec_console parse fragments k = [])))"
  using assms
  by (simp add: extractTestCases_closed while_loop_closed spec_testcase_fields
        spec_console_def try_parse_def split: option.splits)

theorem parse_failure_isolated_witness:
  "(0::nat) < length [''5'', ''hidden'', ''x'', ''7'', ''hidden'', ''[1]''] div 3
   \<and> (\<exists>tcs. extractTestCases JSON_parse [''5'', ''hidden'', ''x'', ''7'', ''hidden'', ''[1]''] = Inr tcs
        \<and> length tcs = 2 \<and> inputs (tcs ! 0) = None \<and> expected (tcs ! 0) = None)"
proof -
  have h: "(0::nat) < length [''5'', ''hidden'', ''x'', ''7'', ''hidden'', ''[1]''] div 3" by simp
  have p: "JSON_parse ''x'' = None" by code_simp
  show ?thesis
    using parse_failure_isolated [OF h, of JSON_parse] by (auto simp: p)
qed

subsection \<open>One question\<close>

lemma createDirectories_cases:
  "\<exists>created r. createDirectories throws ps = (map CreateDirectory created, r)
     \<and> created = take (length created) ps
     \<and> (r = None \<longrightarrow> created = ps \<and> (\<forall>p\<in>set ps. throws p = None))"
proof (induction ps)
  case Nil
  show ?case by simp
next
  case (Cons p ps)
  then obtain created r where rec: "createDirectories throws ps = (map CreateDirectory created, r)"
    and tk: "created = take (length created) ps"
    and ok: "r = None \<longrightarrow> created = ps \<and> (\<forall>p\<in>set ps. throws p = None)"
    by blast
  show ?case
  proof (cases "throws p")
    case (Some err)
    then have "createDirectories throws (p # ps) = (map CreateDirectory [], Some err)" by simp
    then show ?thesis by (intro exI [of _ "[]"] exI [of _ "Some err"]) simp
  next
    case None
    then have "createDirectories throws (p # ps) = (map CreateDirectory (p # created), r)"
      by (simp add: rec)
    moreover have "p # created = take (length (p # created)) (p # ps)"
      using tk by simp
    ultimately show ?thesis using ok None
      by (intro exI [of _ "p # created"] exI [of _ r]) auto
  qed
qed

lemma try_block_state:
  "try_block parse base cat n url v st = (evs, q, c, st') \<Longrightarrow>
   (c \<noteq> Completed \<longrightarrow> st' = st)
   \<and> (c = Completed \<longrightarrow>
        st' = st\<lparr>urls_to_skip_txt := urls_to_skip_txt st @ url @ [CHR 0x0A],
                 scrapedUrls := insert url (scrapedUrls st)\<rparr>)"
  unfolding try_block_def Let_def
  by (auto split: option.splits sum.splits prod.splits if_splits)

lemma try_block_question:
  "try_block parse base cat n url v st = (evs, q, c, st') \<Longrightarrow>
   (\<forall>qd. q = Some qd \<longrightarrow> extractQuestionData v = Inr qd)
   \<and> (c = Completed \<or> (\<exists>e\<in>set evs. is_persistence e) \<longrightarrow>
        (\<exists>qd. q = Some qd \<and> title qd \<noteq> [] \<and> description qd \<noteq> []))"
  unfolding try_block_def Let_def
  by (auto split: option.splits sum.splits prod.splits if_splits)

lemma try_block_invalid:
  "try_block parse base cat n url v st = (evs, q, c, st') \<Longrightarrow>
   (case extractQuestionData v of Inl err \<Rightarrow> True
    | Inr qd \<Rightarrow> title qd = [] \<or> description qd = []) \<Longrightarrow>
   (\<forall>e\<in>set evs. \<not> is_persistence e) \<and> c \<noteq> Completed \<and> st' = st"
  unfolding try_block_def Let_def
  by (auto split: option.splits sum.splits prod.splits if_splits)

lemma try_block_completed:
  assumes "try_block parse base cat n url v st = (evs, q, Completed, st')"
  shows "\<exists>qd els tcs.
      goToUrl_throws v = None \<and> extractQuestionData v = Inr qd \<and> q = Some qd
    \<and> title qd \<noteq> [] \<and> description qd \<noteq> []
    \<and> (\<forall>p\<in>set (path_join [base, cat, dirName n (title qd)]
                  # map (\<lambda>language. path_join [path_join [base, cat, dirName n (title qd)], language]) LANGUAGES).
          createDirectory_throws v p = None)
    \<and> testcase_elements v = Inr els \<and> extractTestCases parse els = Inr tcs
    \<and> saveMarkdown_throws v = None \<and> saveJson_throws v = None \<and> appendToFile_throws v = None
    \<and> evs = [GoToUrl url, ExtractQuestionData]
          @ map CreateDirectory (path_join [base, cat, dirName n (title qd)]
                  # map (\<lambda>language. path_join [path_join [base, cat, dirName n (title qd)], language]) LANGUAGES)
          @ [ExtractTestCases,
             SaveMarkdown (path_join [path_join [base, cat, dirName n (title qd)], ''README.md''])
               (generateQuestionMarkdown qd),
             SaveJson (path_join [path_join [base, cat, dirName n (title qd)], ''testcases.json'']) tcs,
             AppendToFile ''urls_to_skip.txt'' url]"
proof -
  from assms obtain qd where g: "goToUrl_throws v = None" and e: "extractQuestionData v = Inr qd"
    and t: "title qd \<noteq> []" "description qd \<noteq> []"
    unfolding try_block_def Let_def
    by (auto split: option.splits sum.splits prod.splits if_splits)
  let ?dir = "path_join [base, cat, dirName n (title qd)]"
  let ?dirs = "?dir # map (\<lambda>language. path_join [?dir, language]) LANGUAGES"
  obtain created r where cd:
      "createDirectories (createDirectory_throws v) ?dirs = (map CreateDirectory created, r)"
      and ok: "r = None \<longrightarrow> created = ?dirs \<and> (\<forall>p\<in>set ?dirs. createDirectory_throws v p = None)"
    using createDirectories_cases [of "createDirectory_throws v" ?dirs] by blast
  from assms g e t cd have r: "r = None"
    unfolding try_block_def Let_def
    by (auto split: option.splits sum.splits prod.splits if_splits)
  with ok have cr: "created = ?dirs" and thr: "\<forall>p\<in>set ?dirs. createDirectory_throws v p = None"
    by simp_all
  from assms g e t cd r cr thr show ?thesis
    unfolding try_block_def Let_def
    by (auto split: option.splits sum.splits prod.splits if_splits)
qed

lemma try_block_append:
  "try_block parse base cat n url v st = (evs, q, c, st') \<Longrightarrow>
   AppendToFile f x \<in> set evs \<Longrightarrow> c = Completed"
proof -
  assume a: "try_block parse base cat n url v st = (evs, q, c, st')"
    and b: "AppendToFile f x \<in> set evs"
  show ?thesis
  proof (cases "extractQuestionData v")
    case (Inl err)
    with a b show ?thesis
      unfolding try_block_def Let_def by (auto split: option.splits)
  next
    case (Inr qd)
    let ?dir = "path_join [base, cat, dirName n (title qd)]"
    let ?dirs = "?dir # map (\<lambda>language. path_join [?dir, language]) LANGUAGES"
    obtain created r where cd:
      "createDirectories (createDirectory_throws v) ?dirs = (map CreateDirectory created, r)"
      using createDirectories_cases [of "createDirectory_throws v" ?dirs] by blast
    from a b Inr cd show ?thesis
      unfolding try_block_def Let_def
      by (auto split: option.splits sum.splits prod.splits if_splits)
  qed
qed

lemma try_block_shape:
  assumes tb: "try_block parse base cat n url v st = (evs, q, c, st')"
  obtains
    (early) "\<forall>e\<in>set evs. \<not> is_persistence e \<and> e \<noteq> ExtractTestCases" "c \<noteq> Completed"
  | (dirs) qd created err where
      "q = Some qd" "title qd \<noteq> []" "description qd \<noteq> []" "c = Thrown err"
      "evs = [GoToUrl url, ExtractQuestionData] @ map CreateDirectory created"
      "set created \<subseteq> set (path_join [base, cat, dirName n (title qd)]
                # map (\<lambda>language. path_join [path_join [base, cat, dirName n (title qd)], language]) LANGUAGES)"
  | (writes) qd tcs rest where
      "q = Some qd" "title qd \<noteq> []" "description qd \<noteq> []"
      "evs = [GoToUrl url, ExtractQuestionData]
           @ map CreateDirectory (path_join [base, cat, dirName n (title qd)]
                # map (\<lambda>language. path_join [path_join [base, cat, dirName n (title qd)], language]) LANGUAGES)
           @ ExtractTestCases # rest"
      "rest = take (length rest)
         [SaveMarkdown (path_join [path_join [base, cat, dirName n (title qd)], ''README.md''])
            (generateQuestionMarkdown qd),
          SaveJson (path_join [path_join [base, cat, dirName n (title qd)], ''testcases.json'']) tcs,
          AppendToFile ''urls_to_skip.txt'' url]"
      "c = Completed \<longleftrightarrow> length rest = 3"
proof (cases "goToUrl_throws v")
  case (Some err)
  with tb have "evs = []" "c = Thrown err" by (simp_all add: try_block_def)
  then show ?thesis by (intro early) simp_all
next
  case None
  note g = this
  show ?thesis
  proof (cases "extractQuestionData v")
    case (Inl err)
    with tb g have "evs = [GoToUrl url]" "c = Thrown err" by (simp_all add: try_block_def)
    then show ?thesis by (intro early) simp_all
  next
    case (Inr qd)
    note e = this
    show ?thesis
    proof (cases "title qd = [] \<or> description qd = []")
      case True
      with tb g e have "evs = [GoToUrl url, ExtractQuestionData, ConsoleWarn (CouldNotExtract url)]"
        "c = Continued" by (auto simp add: try_block_def)
      then show ?thesis by (intro early) simp_all
    next
      case False
      then have t: "title qd \<noteq> []" "description qd \<noteq> []" by simp_all
      define dir where "dir = path_join [base, cat, dirName n (title qd)]"
      define ds where "ds = dir # map (\<lambda>language. path_join [dir, language]) LANGUAGES"
      obtain created r where cd:
        "createDirectories (createDirectory_throws v) ds = (map CreateDirectory created, r)"
        and tk: "created = take (length created) ds"
        and ok: "r = None \<longrightarrow> created = ds"
        using createDirectories_cases [of "createDirectory_throws v" ds] by blast
      have sub: "set created \<subseteq> set (path_join [base, cat, dirName n (title qd)]
                # map (\<lambda>language. path_join [path_join [base, cat, dirName n (title qd)], language]) LANGUAGES)"
        using set_take_subset [of "length created" ds] tk by (simp add: ds_def dir_def)
      have tb': "(case (map CreateDirectory created, r) of
                (created, Some err) \<Rightarrow> ([GoToUrl url, ExtractQuestionData] @ created, Some qd, Thrown err, st)
              | (created, None) \<Rightarrow>
             (case testcase_elements v of
                Inl err \<Rightarrow> ([GoToUrl url, ExtractQuestionData] @ created, Some qd, Thrown err, st)
              | Inr allTestcaseEle \<Rightarrow>
             (case extractTestCases parse allTestcaseEle of
                Inl err \<Rightarrow> ([GoToUrl url, ExtractQuestionData] @ created, Some qd, Thrown err, st)
              | Inr tcs \<Rightarrow>
             (case saveMarkdown_throws v of
                Some err \<Rightarrow>
                  ([GoToUrl url, ExtractQuestionData] @ created @ [ExtractTestCases], Some qd, Thrown err, st)
              | None \<Rightarrow>
             (case saveJson_throws v of
                Some err \<Rightarrow>
                  ([GoToUrl url, ExtractQuestionData] @ created @
                     [ExtractTestCases,
                      SaveMarkdown (path_join [dir, ''README.md'']) (generateQuestionMarkdown qd)],
                   Some qd, Thrown err, st)
              | None \<Rightarrow>
             (case appendToFile_throws v of
                Some err \<Rightarrow>
                  ([GoToUrl url, ExtractQuestionData] @ created @
                     [ExtractTestCases,
                      SaveMarkdown (path_join [dir, ''README.md'']) (generateQuestionMarkdown qd),
                      SaveJson (path_join [dir, ''testcases.json'']) tcs],
                   Some qd, Thrown err, st)
              | None \<Rightarrow>
                  ([GoToUrl url, ExtractQuestionData] @ created @
                     [ExtractTestCases,
                      SaveMarkdown (path_join [dir, ''README.md'']) (generateQuestionMarkdown qd),
                      SaveJson (path_join [dir, ''testcases.json'']) tcs,
                      AppendToFile ''urls_to_skip.txt'' url],
                   Some qd, Completed,
                   st\<lparr>urls_to_skip_txt := urls_to_skip_txt st @ url @ [CHR 0x0A],
                      scrapedUrls := insert url (scrapedUrls st)\<rparr>))))))) = (evs, q, c, st')"
        using tb g e t cd unfolding try_block_def Let_def dir_def ds_def by simp
      have q: "q = Some qd"
        using tb' by (auto split: option.splits sum.splits)
      show ?thesis
      proof (cases r)
        case (Some err)
        with tb' have "evs = [GoToUrl url, ExtractQuestionData] @ map CreateDirectory created"
          "c = Thrown err" by simp_all
        with q t sub show ?thesis by (intro dirs [of qd err created]) simp_all
      next
        case None
        with ok have cr: "created = ds" by simp
        note r = None
        show ?thesis
        proof (cases "testcase_elements v")
          case (Inl err)
          with tb' r have "evs = [GoToUrl url, ExtractQuestionData] @ map CreateDirectory created"
            "c = Thrown err" by simp_all
          with q t sub show ?thesis by (intro dirs [of qd err created]) simp_all
        next
          case (Inr els)
          note te = this
          show ?thesis
          proof (cases "extractTestCases parse els")
            case (Inl err)
            with tb' r te have "evs = [GoToUrl url, ExtractQuestionData] @ map CreateDirectory created"
              "c = Thrown err" by simp_all
            with q t sub show ?thesis by (intro dirs [of qd err created]) simp_all
          next
            case (Inr tcs)
            note et = this
            let ?all = "[SaveMarkdown (path_join [path_join [base, cat, dirName n (title qd)], ''README.md''])
                  (generateQuestionMarkdown qd),
                SaveJson (path_join [path_join [base, cat, dirName n (title qd)], ''testcases.json'']) tcs,
                AppendToFile ''urls_to_skip.txt'' url]"
            have "\<exists>k\<le>3. evs = [GoToUrl url, ExtractQuestionData] @ map CreateDirectory ds
                       @ ExtractTestCases # take k ?all \<and> (c = Completed \<longleftrightarrow> k = 3)"
            proof (cases "saveMarkdown_throws v")
              case (Some err)
              with tb' r te et cr show ?thesis
                by (intro exI [of _ 0]) auto
            next
              case None
              note sm = this
              show ?thesis
              proof (cases "saveJson_throws v")
                case (Some err)
                with tb' r te et cr sm show ?thesis
                  by (intro exI [of _ 1]) (auto simp: dir_def)
              next
                case None
                note sj = this
                show ?thesis
                proof (cases "appendToFile_throws v")
                  case (Some err)
                  with tb' r te et cr sm sj show ?thesis
                    by (intro exI [of _ 2]) (auto simp: dir_def numeral_2_eq_2)
                next
                  case None
                  with tb' r te et cr sm sj show ?thesis
                    by (intro exI [of _ 3]) (auto simp: dir_def)
                qed
              qed
            qed
            then obtain k where k: "k \<le> 3"
              "evs = [GoToUrl url, ExtractQuestionData] @ map CreateDirectory ds
                       @ ExtractTestCases # take k ?all" "c = Completed \<longleftrightarrow> k = 3"
              by blast
            show ?thesis
              by (rule writes [of qd "take k ?all" tcs])
                 (use q t k in \<open>simp_all add: ds_def dir_def min_def\<close>)
          qed
        qed
      qed
    qed
  qed
qed

lemma createDirectories_ok:
  "\<forall>p\<in>set ps. throws p = None \<Longrightarrow>
   createDirectories throws ps = (map CreateDirectory ps, None)"
  by (induction ps) simp_all

lemma createDirectories_throw:
  "j < length ps \<Longrightarrow> throws (ps ! j) = Some err \<Longrightarrow> \<forall>i<j. throws (ps ! i) = None \<Longrightarrow>
   createDirectories throws ps = (map CreateDirectory (take j ps), Some err)"
proof (induction ps arbitrary: j)
  case Nil
  then show ?case by simp
next
  case (Cons p ps)
  show ?case
  proof (cases j)
    case 0
    with Cons.prems show ?thesis by simp
  next
    case (Suc j')
    with Cons.prems have "throws p = None" by auto
    moreover from Cons.prems Suc have "j' < length ps" "throws (ps ! j') = Some err"
      "\<forall>i<j'. throws (ps ! i) = None" by auto
    ultimately show ?thesis using Cons.IH [of j'] Suc by simp
  qed
qed

lemma try_block_thrown:
  assumes "goToUrl_throws v = Some err
    \<or> (goToUrl_throws v = None \<and> extractQuestionData v = Inl err)
    \<or> (goToUrl_throws v = None
        \<and> (\<exists>qd. extractQuestionData v = Inr qd \<and> title qd \<noteq> [] \<and> description qd \<noteq> []
              \<and> ((\<exists>j<length (path_join [base, cat, dirName n (title qd)]
                       # map (\<lambda>language. path_join [path_join [base, cat, dirName n (title qd)], language]) LANGUAGES).
                      createDirectory_throws v
                        ((path_join [base, cat, dirName n (title qd)]
                          # map (\<lambda>language. path_join [path_join [base, cat, dirName n (title qd)], language]) LANGUAGES) ! j) = Some err
                      \<and> (\<forall>i<j. createDirectory_throws v
                            ((path_join [base, cat, dirName n (title qd)]
                              # map (\<lambda>language. path_join [path_join [base, cat, dirName n (title qd)], language]) LANGUAGES) ! i) = None))
                  \<or> ((\<forall>p\<in>set (path_join [base, cat, dirName n (title qd)]
                          # map (\<lambda>language. path_join [path_join [base, cat, dirName n (title qd)], language]) LANGUAGES).
                        createDirectory_throws v p = None)
                      \<and> (testcase_elements v = Inl err
                          \<or> ((\<exists>els. testcase_elements v = Inr els)
                              \<and> (saveMarkdown_throws v = Some err
                                  \<or> (saveMarkdown_throws v = None
                                      \<and> (saveJson_throws v = Some err
                                          \<or> (saveJson_throws v = None
                                              \<and> appendToFile_throws v = Some err))))))))))"
  shows "\<exists>evs q. try_block parse base cat n url v st = (evs, q, Thrown err, st)"
  using assms
proof (elim disjE conjE exE, goal_cases)
  case 1
  then show ?case by (simp add: try_block_def)
next
  case 2
  then show ?case by (simp add: try_block_def)
next
  case (3 qd j)
  note cd = createDirectories_throw [OF 3(5) 3(6) 3(7)]
  from 3(1-4) show ?case
    by (simp add: try_block_def Let_def cd del: createDirectories.simps)
next
  case (4 qd)
  note cd = createDirectories_ok [OF 4(5)]
  from 4 show ?case
    by (simp add: try_block_def Let_def cd del: createDirectories.simps)
next
  case (5 qd els)
  note cd = createDirectories_ok [OF 5(5)]
  from 5 show ?case
    by (simp add: try_block_def Let_def cd extractTestCases_closed
          del: createDirectories.simps)
next
  case (6 qd els)
  note cd = createDirectories_ok [OF 6(5)]
  from 6 show ?case
    by (simp add: try_block_def Let_def cd extractTestCases_closed
          del: createDirectories.simps)
next
  case (7 qd els)
  note cd = createDirectories_ok [OF 7(5)]
  from 7 show ?case
    by (simp add: try_block_def Let_def cd extractTestCases_closed
          del: createDirectories.simps)
qed

lemma scrape_question_fields:
  "scrape_question parse base cat n url v st = (it, st') \<Longrightarrow>
   item_category it = cat \<and> item_num it = n \<and> item_url it = url"
  unfolding scrape_question_def
  by (auto split: if_splits prod.splits completion.splits)

lemma scrape_question_skipped:
  "url \<in> scrapedUrls st \<Longrightarrow>
   scrape_question parse base cat n url v st =
     (\<lparr>item_category = cat, item_num = n, item_url = url, item_status = Skipped,
       item_events = [], item_question = None\<rparr>, st)"
  by (simp add: scrape_question_def)

lemma scrape_question_try:
  assumes "url \<notin> scrapedUrls st"
    and "try_block parse base cat n url v st = (evs, q, c, st')"
  shows "scrape_question parse base cat n url v st =
     (\<lparr>item_category = cat, item_num = n, item_url = url,
       item_status = (case c of Thrown err \<Rightarrow> Failed err | Continued \<Rightarrow> Invalid
                      | Completed \<Rightarrow> Committed),
       item_events = (case c of Thrown err \<Rightarrow> evs @ [ConsoleError (ErrorProcessingURL url err)]
                      | _ \<Rightarrow> evs),
       item_question = q\<rparr>, st')"
  using assms by (simp add: scrape_question_def split: completion.splits)

lemma scrape_question_state:
  assumes "scrape_question parse base cat n url v st = (it, st')"
  shows "(item_status it \<noteq> Committed \<longrightarrow> st' = st)
       \<and> (item_status it = Committed \<longrightarrow>
            url \<notin> scrapedUrls st
          \<and> st' = st\<lparr>urls_to_skip_txt := urls_to_skip_txt st @ url @ [CHR 0x0A],
                     scrapedUrls := insert url (scrapedUrls st)\<rparr>)
       \<and> (item_status it = Skipped \<longrightarrow> url \<in> scrapedUrls st \<and> item_events it = [])"
proof (cases "url \<in> scrapedUrls st")
  case True
  with assms show ?thesis by (auto simp: scrape_question_skipped)
next
  case False
  obtain evs q c s where tb: "try_block parse base cat n url v st = (evs, q, c, s)"
    by (cases "try_block parse base cat n url v st") auto
  from assms scrape_question_try [OF False tb] try_block_state [OF tb] False
  show ?thesis by (cases c) auto
qed

lemma scrape_question_question:
  assumes sq: "scrape_question parse base cat n url v st = (it, st')"
  shows "(\<forall>qd. item_question it = Some qd \<longrightarrow> extractQuestionData v = Inr qd)
       \<and> (item_status it = Committed \<or> (\<exists>e\<in>set (item_events it). is_persistence e) \<longrightarrow>
            (\<exists>qd. item_question it = Some qd \<and> title qd \<noteq> [] \<and> description qd \<noteq> []))"
proof (cases "url \<in> scrapedUrls st")
  case True
  with sq show ?thesis by (auto simp: scrape_question_skipped)
next
  case False
  obtain evs q c s where tb: "try_block parse base cat n url v st = (evs, q, c, s)"
    by (cases "try_block parse base cat n url v st") auto
  from sq scrape_question_try [OF False tb] try_block_question [OF tb]
  show ?thesis by (cases c) auto
qed

lemma scrape_question_invalid:
  assumes sq: "scrape_question parse base cat n url v st = (it, st')"
    and inv: "case extractQuestionData v of Inl err \<Rightarrow> True
              | Inr qd \<Rightarrow> title qd = [] \<or> description qd = []"
  shows "(\<forall>e\<in>set (item_events it). \<not> is_persistence e) \<and> item_status it \<noteq> Committed \<and> st' = st"
proof (cases "url \<in> scrapedUrls st")
  case True
  with sq show ?thesis by (auto simp: scrape_question_skipped)
next
  case False
  obtain evs q c s where tb: "try_block parse base cat n url v st = (evs, q, c, s)"
    by (cases "try_block parse base cat n url v st") auto
  from sq scrape_question_try [OF False tb] try_block_invalid [OF tb inv]
  show ?thesis by (cases c) auto
qed



lemma takeWhile_CreateDirectory:
  "takeWhile (\<lambda>e. e \<noteq> ExtractTestCases) (map CreateDirectory ps @ es) =
     map CreateDirectory ps @ takeWhile (\<lambda>e. e \<noteq> ExtractTestCases) es"
  by (induction ps) simp_all

lemma dropWhile_CreateDirectory:
  "dropWhile (\<lambda>e. e \<noteq> ExtractTestCases) (map CreateDirectory ps @ es) =
     dropWhile (\<lambda>e. e \<noteq> ExtractTestCases) es"
  by (induction ps) simp_all

lemma scrape_question_order:
  assumes sq: "scrape_question parse base cat n url v st = (it, st')"
  shows "(\<forall>p. CreateDirectory p \<notin> set (dropWhile (\<lambda>e. e \<noteq> ExtractTestCases) (item_events it)))
     \<and> (\<forall>e\<in>set (takeWhile (\<lambda>e. e \<noteq> ExtractTestCases) (item_events it)). \<not> is_write e)
     \<and> (ExtractTestCases \<in> set (item_events it) \<longrightarrow>
          (\<exists>qd. item_question it = Some qd
             \<and> (\<forall>p\<in>set (path_join [base, cat, dirName n (title qd)]
                    # map (\<lambda>language. path_join [path_join [base, cat, dirName n (title qd)], language]) LANGUAGES).
                  CreateDirectory p
                    \<in> set (takeWhile (\<lambda>e. e \<noteq> ExtractTestCases) (item_events it)))))
     \<and> (\<forall>p. CreateDirectory p \<in> set (item_events it) \<longrightarrow>
          take 2 (item_events it) = [GoToUrl url, ExtractQuestionData]
          \<and> (\<exists>qd. item_question it = Some qd \<and> title qd \<noteq> [] \<and> description qd \<noteq> []))"
proof (cases "url \<in> scrapedUrls st")
  case True
  with sq show ?thesis by (auto simp: scrape_question_skipped)
next
  case False
  obtain evs q c s where tb: "try_block parse base cat n url v st = (evs, q, c, s)"
    by (cases "try_block parse base cat n url v st") auto
  from sq scrape_question_try [OF False tb]
  have q: "item_question it = q"
    and ev: "item_events it = (case c of Thrown err \<Rightarrow> evs @ [ConsoleError (ErrorProcessingURL url err)]
                      | _ \<Rightarrow> evs)"
    by auto
  obtain tail where tail: "item_events it = evs @ tail"
    "\<forall>e\<in>set tail. \<not> is_persistence e \<and> e \<noteq> ExtractTestCases"
    using ev by (cases c) auto
  from tb show ?thesis
  proof (cases rule: try_block_shape)
    case early
    then have a: "\<forall>e\<in>set (item_events it). \<not> is_persistence e \<and> e \<noteq> ExtractTestCases"
      using tail by auto
    then have tw: "takeWhile (\<lambda>e. e \<noteq> ExtractTestCases) (item_events it) = item_events it"
      and dw: "dropWhile (\<lambda>e. e \<noteq> ExtractTestCases) (item_events it) = []"
      by simp_all
    have nw: "\<forall>e\<in>set (item_events it). \<not> is_write e"
    proof
      fix e assume "e \<in> set (item_events it)"
      with a have "\<not> is_persistence e" by simp
      then show "\<not> is_write e" by (cases e) simp_all
    qed
    have nc: "\<forall>p. CreateDirectory p \<notin> set (item_events it)"
      using a by fastforce
    have ne: "ExtractTestCases \<notin> set (item_events it)" using a by blast
    show ?thesis unfolding tw dw using nw nc ne by simp
  next
    case (dirs qd created err)
    have tl: "takeWhile (\<lambda>e. e \<noteq> ExtractTestCases) tail = tail"
      "dropWhile (\<lambda>e. e \<noteq> ExtractTestCases) tail = []"
      using tail(2) by simp_all
    have nw: "\<forall>e\<in>set tail. \<not> is_write e"
    proof
      fix e assume "e \<in> set tail"
      with tail(2) have "\<not> is_persistence e" by simp
      then show "\<not> is_write e" by (cases e) simp_all
    qed
    have ne: "ExtractTestCases \<notin> set (item_events it)"
      using tail dirs(5) by auto
    have dw: "dropWhile (\<lambda>e. e \<noteq> ExtractTestCases) (item_events it) = []"
      using tail dirs(5) by (simp add: dropWhile_CreateDirectory tl)
    have tw: "takeWhile (\<lambda>e. e \<noteq> ExtractTestCases) (item_events it) = item_events it"
      using tail dirs(5) by (simp add: takeWhile_CreateDirectory tl)
    have nw': "\<forall>e\<in>set (item_events it). \<not> is_write e"
      using tail(1) dirs(5) nw by auto
    have t2: "take 2 (item_events it) = [GoToUrl url, ExtractQuestionData]"
      using tail(1) dirs(5) by simp
    show ?thesis unfolding tw dw using ne nw' t2 q dirs(1-3) by simp
  next
    case (writes qd tcs rest)
    define ds where "ds = path_join [base, cat, dirName n (title qd)]
                # map (\<lambda>language. path_join [path_join [base, cat, dirName n (title qd)], language]) LANGUAGES"
    have evs: "item_events it = [GoToUrl url, ExtractQuestionData] @ map CreateDirectory ds
                  @ ExtractTestCases # rest @ tail"
      using tail(1) writes(4) by (simp add: ds_def)
    have tw: "takeWhile (\<lambda>e. e \<noteq> ExtractTestCases) (item_events it) =
                [GoToUrl url, ExtractQuestionData] @ map CreateDirectory ds"
      by (simp add: evs takeWhile_CreateDirectory)
    have dw: "dropWhile (\<lambda>e. e \<noteq> ExtractTestCases) (item_events it) =
                ExtractTestCases # rest @ tail"
      by (simp add: evs dropWhile_CreateDirectory)
    have "\<forall>e\<in>set rest. is_write e"
    proof
      fix e assume "e \<in> set rest"
      then have "e \<in> set [SaveMarkdown (path_join [path_join [base, cat, dirName n (title qd)], ''README.md''])
            (generateQuestionMarkdown qd),
          SaveJson (path_join [path_join [base, cat, dirName n (title qd)], ''testcases.json'']) tcs,
          AppendToFile ''urls_to_skip.txt'' url]"
        using writes(5) by (metis in_set_takeD)
      then show "is_write e" by auto
    qed
    then have nr: "\<forall>p. CreateDirectory p \<notin> set rest" by fastforce
    have nt: "\<forall>p. CreateDirectory p \<notin> set tail" using tail(2) by fastforce
    have a: "\<forall>p. CreateDirectory p \<notin> set (dropWhile (\<lambda>e. e \<noteq> ExtractTestCases) (item_events it))"
      using nr nt by (simp add: dw)
    have b: "\<forall>e\<in>set (takeWhile (\<lambda>e. e \<noteq> ExtractTestCases) (item_events it)). \<not> is_write e"
      by (auto simp: tw)
    have c: "\<forall>p\<in>set ds. CreateDirectory p
                    \<in> set (takeWhile (\<lambda>e. e \<noteq> ExtractTestCases) (item_events it))"
      by (simp add: tw)
    have d: "take 2 (item_events it) = [GoToUrl url, ExtractQuestionData]"
      by (simp add: evs)
    from a b c d q writes(1-3) show ?thesis
      unfolding ds_def by simp
  qed
qed

text \<open>
  Claim C10, as stated, fails: \<^verbatim>\<open>run\<close> creates the directory of the question and
  the four language directories before it calls \<^verbatim>\<open>extractTestCases\<close>. When the
  test-case extraction throws, the five directories are there although the extraction
  never completed; when it returns, the five creations precede it in the trace.
\<close>

theorem directories_before_testcases_counterexample:
  "scrape_question JSON_parse ''/dl'' ''Arrays'' 3 example_url
     (example_visit\<lparr>testcase_elements := Inl AutomationError\<rparr>) fresh =
   (\<lparr>item_category = ''Arrays'', item_num = 3, item_url = example_url,
     item_status = Failed AutomationError,
     item_events =
       [GoToUrl example_url, ExtractQuestionData,
        CreateDirectory ''/dl/Arrays/03-Two-Number-Sum'',
        CreateDirectory ''/dl/Arrays/03-Two-Number-Sum/Golang'',
        CreateDirectory ''/dl/Arrays/03-Two-Number-Sum/Java'',
        CreateDirectory ''/dl/Arrays/03-Two-Number-Sum/JavaScript'',
        CreateDirectory ''/dl/Arrays/03-Two-Number-Sum/Python'',
        ConsoleError (ErrorProcessingURL example_url AutomationError)],
     item_question = Some example_question\<rparr>, fresh)
   \<and> item_events (fst (scrape_question JSON_parse ''/dl'' ''Arrays'' 3 example_url
        example_visit fresh)) =
       [GoToUrl example_url, ExtractQuestionData,
        CreateDirectory ''/dl/Arrays/03-Two-Number-Sum'',
        CreateDirectory ''/dl/Arrays/03-Two-Number-Sum/Golang'',
        CreateDirectory ''/dl/Arrays/03-Two-Number-Sum/Java'',
        CreateDirectory ''/dl/Arrays/03-Two-Number-Sum/JavaScript'',
        CreateDirectory ''/dl/Arrays/03-Two-Number-Sum/Python'',
        ExtractTestCases,
        SaveMarkdown ''/dl/Arrays/03-Two-Number-Sum/README.md''
          (generateQuestionMarkdown example_question),
        SaveJson ''/dl/Arrays/03-Two-Number-Sum/testcases.json''
          [\<lparr>inputs = Some (JArray [JNum 3, JNum 5]), expected = Some (JNum 8),
            name = ''Test Case 1''\<rparr>],
        AppendToFile ''urls_to_skip.txt'' example_url]"
  by code_simp

text \<open>
  Claim C10, amended: the directories are created after the question data has been
  extracted and found valid, and before the test-case extraction: no directory is
  created once \<^verbatim>\<open>extractTestCases\<close> has returned, all five are created before it
  returns, and of the persisting stage only the writes of \<^verbatim>\<open>README.md\<close> and
  \<^verbatim>\<open>testcases.json\<close> and the commit come after the test-case extraction.
\<close>

theorem directories_before_testcases:
  assumes "scrape_question parse base cat n url v st = (it, st')"
  shows "(\<forall>p. CreateDirectory p \<notin> set (dropWhile (\<lambda>e. e \<noteq> ExtractTestCases) (item_events it)))
     \<and> (\<forall>e\<in>set (takeWhile (\<lambda>e. e \<noteq> ExtractTestCases) (item_events it)). \<not> is_write e)
     \<and> (ExtractTestCases \<in> set (item_events it) \<longrightarrow>
          (\<exists>qd. item_question it = Some qd
             \<and> (\<forall>p\<in>set (path_join [base, cat, dirName n (title qd)]
                    # map (\<lambda>language. path_join [path_join [base, cat, dirName n (title qd)], language]) LANGUAGES).
                  CreateDirectory p
                    \<in> set (takeWhile (\<lambda>e. e \<noteq> ExtractTestCases) (item_events it)))))
     \<and> (\<forall>p. CreateDirectory p \<in> set (item_events it) \<longrightarrow>
          take 2 (item_events it) = [GoToUrl url, ExtractQuestionData]
          \<and> (\<exists>qd. item_question it = Some qd \<and> title qd \<noteq> [] \<and> description qd \<noteq> []))"
  using assms by (rule scrape_question_order)

theorem directories_before_testcases_witness:
  "\<exists>it st'. scrape_question JSON_parse ''/dl'' ''Arrays'' 3 example_url example_visit fresh = (it, st')
     \<and> ExtractTestCases \<in> set (item_events it)
     \<and> filter is_write (takeWhile (\<lambda>e. e \<noteq> ExtractTestCases) (item_events it)) = []
     \<and> take 2 (item_events it) = [GoToUrl example_url, ExtractQuestionData]"
proof -
  obtain it st' where sq: "scrape_question JSON_parse ''/dl'' ''Arrays'' 3 example_url
      example_visit fresh = (it, st')"
    by fastforce
  have "ExtractTestCases \<in> set (item_events (fst (scrape_question JSON_parse ''/dl'' ''Arrays'' 3
      example_url example_visit fresh)))"
    by code_simp
  with sq have a: "ExtractTestCases \<in> set (item_events it)" by simp
  have "CreateDirectory ''/dl/Arrays/03-Two-Number-Sum'' \<in> set (item_events (fst
     (scrape_question JSON_parse ''/dl'' ''Arrays'' 3 example_url example_visit fresh)))"
    by code_simp
  with sq have b: "CreateDirectory ''/dl/Arrays/03-Two-Number-Sum'' \<in> set (item_events it)"
    by simp
  from directories_before_testcases [OF sq] b
  have "(\<forall>e\<in>set (takeWhile (\<lambda>e. e \<noteq> ExtractTestCases) (item_events it)). \<not> is_write e)
      \<and> take 2 (item_events it) = [GoToUrl example_url, ExtractQuestionData]"
    by blast
  then have "filter is_write (takeWhile (\<lambda>e. e \<noteq> ExtractTestCases) (item_events it)) = []
     \<and> take 2 (item_events it) = [GoToUrl example_url, ExtractQuestionData]"
    by (simp add: filter_empty_conv)
  with sq a show ?thesis by blast
qed

subsection \<open>The queue of a category and the categories\<close>

lemma while_queue_urls:
  "map item_url (fst (while_queue parse base visits cat n queue st)) = queue
   \<and> map item_num (fst (while_queue parse base visits cat n queue st)) = [n..<n + length queue]
   \<and> (\<forall>it\<in>set (fst (while_queue parse base visits cat n queue st)). item_category it = cat)"
proof (induction queue arbitrary: n st)
  case Nil
  show ?case by simp
next
  case (Cons url queue)
  obtain it st' where sq: "scrape_question parse base cat n url (visits n) st = (it, st')"
    by (cases "scrape_question parse base cat n url (visits n) st") auto
  obtain its st'' where wq: "while_queue parse base visits cat (n + 1) queue st' = (its, st'')"
    by (cases "while_queue parse base visits cat (n + 1) queue st'") auto
  from Cons.IH [of "n + 1" st'] wq
  have "map item_url its = queue" "map item_num its = [n + 1..<n + 1 + length queue]"
       "\<forall>it\<in>set its. item_category it = cat"
    by simp_all
  moreover have "[n..<n + length (url # queue)] = n # [n + 1..<n + 1 + length queue]"
    by (subst upt_rec) simp
  ultimately show ?case
    using scrape_question_fields [OF sq] sq wq by simp
qed


lemma while_queue_items:
  "\<forall>it\<in>set (fst (while_queue parse base visits cat n queue st)).
     item_category it = cat
     \<and> (\<exists>s s'. scrape_question parse base cat (item_num it) (item_url it)
                  (visits (item_num it)) s = (it, s'))"
proof (induction queue arbitrary: n st)
  case Nil
  show ?case by simp
next
  case (Cons url queue)
  obtain it st' where sq: "scrape_question parse base cat n url (visits n) st = (it, st')"
    by (cases "scrape_question parse base cat n url (visits n) st") auto
  obtain its st'' where wq: "while_queue parse base visits cat (n + 1) queue st' = (its, st'')"
    by (cases "while_queue parse base visits cat (n + 1) queue st'") auto
  have hd: "item_category it = cat
     \<and> (\<exists>s s'. scrape_question parse base cat (item_num it) (item_url it)
                  (visits (item_num it)) s = (it, s'))"
    using scrape_question_fields [OF sq] sq by auto
  from Cons.IH [of "n + 1" st'] wq have tl: "\<forall>it\<in>set its.
     item_category it = cat
     \<and> (\<exists>s s'. scrape_question parse base cat (item_num it) (item_url it)
                  (visits (item_num it)) s = (it, s'))"
    by simp
  from hd tl sq wq show ?case by simp
qed

lemma for_categories_items:
  "\<forall>it\<in>set (fst (for_categories parse base visits qbc st)).
     item_category it \<in> fst ` set qbc
     \<and> (\<exists>s s'. scrape_question parse base (item_category it) (item_num it) (item_url it)
                  (visits (item_category it) (item_num it)) s = (it, s'))"
proof (induction qbc arbitrary: st)
  case Nil
  show ?case by simp
next
  case (Cons cq qbc)
  obtain cat queue where cq: "cq = (cat, queue)" by (cases cq) auto
  obtain its st' where wq: "while_queue parse base (visits cat) cat 1 queue st = (its, st')"
    by (cases "while_queue parse base (visits cat) cat 1 queue st") auto
  obtain its' st'' where fc: "for_categories parse base visits qbc st' = (its', st'')"
    by (cases "for_categories parse base visits qbc st'") auto
  from while_queue_items [of parse base "visits cat" cat 1 queue st] wq
  have a: "\<forall>it\<in>set its. item_category it = cat
     \<and> (\<exists>s s'. scrape_question parse base cat (item_num it) (item_url it)
                  (visits cat (item_num it)) s = (it, s'))"
    by simp
  from Cons.IH [of st'] fc
  have b: "\<forall>it\<in>set its'. item_category it \<in> fst ` set qbc
     \<and> (\<exists>s s'. scrape_question parse base (item_category it) (item_num it) (item_url it)
                  (visits (item_category it) (item_num it)) s = (it, s'))"
    by simp
  have "fst (for_categories parse base visits (cq # qbc) st) = its @ its'"
    using cq wq fc by simp
  with a b cq show ?case by auto
qed

lemma while_queue_effect:
  "while_queue parse base visits cat n queue st = (its, st') \<Longrightarrow>
   scrapedUrls st' = scrapedUrls st \<union> item_url ` {it \<in> set its. item_status it = Committed}
   \<and> urls_to_skip_txt st' = urls_to_skip_txt st
        @ concat (map (\<lambda>it. item_url it @ [CHR 0x0A])
                    (filter (\<lambda>it. item_status it = Committed) its))
   \<and> (\<forall>it\<in>set its. item_status it = Skipped \<longrightarrow> item_url it \<in> scrapedUrls st')"
proof (induction queue arbitrary: n st its st')
  case Nil
  then show ?case by simp
next
  case (Cons url queue)
  obtain it s1 where sq: "scrape_question parse base cat n url (visits n) st = (it, s1)"
    by (cases "scrape_question parse base cat n url (visits n) st") auto
  obtain its1 s2 where wq: "while_queue parse base visits cat (n + 1) queue s1 = (its1, s2)"
    by (cases "while_queue parse base visits cat (n + 1) queue s1") auto
  from Cons.prems sq wq have its: "its = it # its1" and st': "st' = s2" by simp_all
  note IH = Cons.IH [OF wq]
  note f = scrape_question_fields [OF sq]
  note s = scrape_question_state [OF sq]
  show ?case
  proof (cases "item_status it = Committed")
    case True
    with s have "s1 = st\<lparr>urls_to_skip_txt := urls_to_skip_txt st @ url @ [CHR 0x0A],
                     scrapedUrls := insert url (scrapedUrls st)\<rparr>" by simp
    with IH True f its st' show ?thesis by auto
  next
    case False
    with s have s1: "s1 = st" by simp
    have "item_status it = Skipped \<longrightarrow> item_url it \<in> scrapedUrls s2"
      using s f IH s1 by auto
    with IH False f its st' s1 show ?thesis by auto
  qed
qed

lemma for_categories_effect:
  "for_categories parse base visits qbc st = (its, st') \<Longrightarrow>
   scrapedUrls st' = scrapedUrls st \<union> item_url ` {it \<in> set its. item_status it = Committed}
   \<and> urls_to_skip_txt st' = urls_to_skip_txt st
        @ concat (map (\<lambda>it. item_url it @ [CHR 0x0A])
                    (filter (\<lambda>it. item_status it = Committed) its))
   \<and> (\<forall>it\<in>set its. item_status it = Skipped \<longrightarrow> item_url it \<in> scrapedUrls st')"
proof (induction qbc arbitrary: st its st')
  case Nil
  then show ?case by simp
next
  case (Cons cq qbc)
  obtain cat queue where cq: "cq = (cat, queue)" by (cases cq) auto
  obtain its1 s1 where wq: "while_queue parse base (visits cat) cat 1 queue st = (its1, s1)"
    by (cases "while_queue parse base (visits cat) cat 1 queue st") auto
  obtain its2 s2 where fc: "for_categories parse base visits qbc s1 = (its2, s2)"
    by (cases "for_categories parse base visits qbc s1") auto
  from Cons.prems cq wq fc have its: "its = its1 @ its2" and st': "st' = s2" by simp_all
  note a = while_queue_effect [OF wq]
  note b = Cons.IH [OF fc]
  have mono: "scrapedUrls s1 \<subseteq> scrapedUrls s2" using b by auto
  have "\<forall>it\<in>set its. item_status it = Skipped \<longrightarrow> item_url it \<in> scrapedUrls st'"
    using a b mono its st' by auto
  moreover have "scrapedUrls st' = scrapedUrls st \<union> item_url ` {it \<in> set its. item_status it = Committed}"
    using a b its st' by auto
  moreover have "urls_to_skip_txt st' = urls_to_skip_txt st
        @ concat (map (\<lambda>it. item_url it @ [CHR 0x0A])
                    (filter (\<lambda>it. item_status it = Committed) its))"
    using a b its st' by simp
  ultimately show ?case by blast
qed

text \<open>
  Claim C4: the identifier is appended to \<^verbatim>\<open>urls_to_skip.txt\<close> and added to the set
  only in a turn that ends committed, and there the two writes of \<^verbatim>\<open>README.md\<close> and
  \<^verbatim>\<open>testcases.json\<close> have returned before the append and no call has thrown. A turn
  whose \<^verbatim>\<open>try\<close> block throws ends as failed: the state is left as it was, the last
  line of the trace is the error logged with the identifier, and whatever the turn
  ended with, the loop goes on with the next identifier of the queue, so the queue is
  walked to its end. The last conjunct names the calls: when the first call of the
  turn that throws is the navigation, the extraction of the question, the creation of
  one of the five directories, the extraction of the test cases, the write of
  \<^verbatim>\<open>README.md\<close>, the write of \<^verbatim>\<open>testcases.json\<close> or the append to the skip-list,
  and it throws \<open>err\<close>, the turn ends as failed with \<open>err\<close>, the state is left as it
  was and the last line of the trace is \<open>err\<close> logged with the identifier.
\<close>

theorem commit_only_after_writes:
  assumes "while_queue parse base visits cat n (url # queue) st = (its, st'')"
  shows "\<exists>it st'.
       scrape_question parse base cat n url (visits n) st = (it, st')
     \<and> its = it # fst (while_queue parse base visits cat (n + 1) queue st')
     \<and> st'' = snd (while_queue parse base visits cat (n + 1) queue st')
     \<and> map item_url its = url # queue
     \<and> (item_status it \<noteq> Committed \<longrightarrow> st' = st)
     \<and> (\<forall>f x. AppendToFile f x \<in> set (item_events it) \<longrightarrow> item_status it = Committed)
     \<and> (item_status it = Committed \<longrightarrow>
          st' = st\<lparr>urls_to_skip_txt := urls_to_skip_txt st @ url @ [CHR 0x0A],
                   scrapedUrls := insert url (scrapedUrls st)\<rparr>
        \<and> (\<exists>pre dir md tcs. item_events it =
              pre @ [SaveMarkdown (path_join [dir, ''README.md'']) md,
                     SaveJson (path_join [dir, ''testcases.json'']) tcs,
                     AppendToFile ''urls_to_skip.txt'' url])
        \<and> goToUrl_throws (visits n) = None
        \<and> (\<exists>qd. extractQuestionData (visits n) = Inr qd
              \<and> (\<forall>p\<in>set (path_join [base, cat, dirName n (title qd)]
                    # map (\<lambda>language. path_join [path_join [base, cat, dirName n (title qd)], language]) LANGUAGES).
                    createDirectory_throws (visits n) p = None))
        \<and> (\<exists>els. testcase_elements (visits n) = Inr els)
        \<and> saveMarkdown_throws (visits n) = None
        \<and> saveJson_throws (visits n) = None
        \<and> appendToFile_throws (visits n) = None)
     \<and> (\<forall>err. item_status it = Failed err \<longrightarrow>
          st' = st \<and> item_events it \<noteq> []
        \<and> last (item_events it) = ConsoleError (ErrorProcessingURL url err))
     \<and> (url \<notin> scrapedUrls st \<longrightarrow>
          (\<forall>evs q err s. try_block parse base cat n url (visits n) st = (evs, q, Thrown err, s)
             \<longrightarrow> item_status it = Failed err))
     \<and> (url \<notin> scrapedUrls st \<longrightarrow>
          (\<forall>err.
             (goToUrl_throws (visits n) = Some err
    \<or> (goToUrl_throws (visits n) = None \<and> extractQuestionData (visits n) = Inl err)
    \<or> (goToUrl_throws (visits n) = None
        \<and> (\<exists>qd. extractQuestionData (visits n) = Inr qd \<and> title qd \<noteq> [] \<and> description qd \<noteq> []
              \<and> ((\<exists>j<length (path_join [base, cat, dirName n (title qd)]
                       # map (\<lambda>language. path_join [path_join [base, cat, dirName n (title qd)], language]) LANGUAGES).
                      createDirectory_throws (visits n)
                        ((path_join [base, cat, dirName n (title qd)]
                          # map (\<lambda>language. path_join [path_join [base, cat, dirName n (title qd)], language]) LANGUAGES) ! j) = Some err
                      \<and> (\<forall>i<j. createDirectory_throws (visits n)
                            ((path_join [base, cat, dirName n (title qd)]
                              # map (\<lambda>language. path_join [path_join [base, cat, dirName n (title qd)], language]) LANGUAGES) ! i) = None))
                  \<or> ((\<forall>p\<in>set (path_join [base, cat, dirName n (title qd)]
                          # map (\<lambda>language. path_join [path_join [base, cat, dirName n (title qd)], language]) LANGUAGES).
                        createDirectory_throws (visits n) p = None)
                      \<and> (testcase_elements (visits n) = Inl err
                          \<or> ((\<exists>els. testcase_elements (visits n) = Inr els)
                              \<and> (saveMarkdown_throws (visits n) = Some err
                                  \<or> (saveMarkdown_throws (visits n) = None
                                      \<and> (saveJson_throws (visits n) = Some err
                                          \<or> (saveJson_throws (visits n) = None
                                              \<and> appendToFile_throws (visits n) = Some err)))))))))))
             \<longrightarrow> item_status it = Failed err \<and> st' = st \<and> item_events it \<noteq> []
                 \<and> last (item_events it) = ConsoleError (ErrorProcessingURL url err)))"
proof -
  obtain it st' where sq: "scrape_question parse base cat n url (visits n) st = (it, st')"
    by (cases "scrape_question parse base cat n url (visits n) st") auto
  have its: "its = it # fst (while_queue parse base visits cat (n + 1) queue st')"
    and st'': "st'' = snd (while_queue parse base visits cat (n + 1) queue st')"
    using assms sq by (auto split: prod.splits)
  have urls: "map item_url its = url # queue"
    using while_queue_urls [of parse base visits cat n "url # queue" st] assms by simp
  note state = scrape_question_state [OF sq]
  have s1: "item_status it \<noteq> Committed \<longrightarrow> st' = st"
    and s2: "item_status it = Committed \<longrightarrow>
          st' = st\<lparr>urls_to_skip_txt := urls_to_skip_txt st @ url @ [CHR 0x0A],
                   scrapedUrls := insert url (scrapedUrls st)\<rparr>"
    and s3: "\<forall>err. item_status it = Failed err \<longrightarrow> st' = st"
    using state by auto
  have rest: "(\<forall>f x. AppendToFile f x \<in> set (item_events it) \<longrightarrow> item_status it = Committed)
     \<and> (item_status it = Committed \<longrightarrow>
          (\<exists>pre dir md tcs. item_events it =
              pre @ [SaveMarkdown (path_join [dir, ''README.md'']) md,
                     SaveJson (path_join [dir, ''testcases.json'']) tcs,
                     AppendToFile ''urls_to_skip.txt'' url])
        \<and> goToUrl_throws (visits n) = None
        \<and> (\<exists>qd. extractQuestionData (visits n) = Inr qd
              \<and> (\<forall>p\<in>set (path_join [base, cat, dirName n (title qd)]
                    # map (\<lambda>language. path_join [path_join [base, cat, dirName n (title qd)], language]) LANGUAGES).
                    createDirectory_throws (visits n) p = None))
        \<and> (\<exists>els. testcase_elements (visits n) = Inr els)
        \<and> saveMarkdown_throws (visits n) = None
        \<and> saveJson_throws (visits n) = None
        \<and> appendToFile_throws (visits n) = None)
     \<and> (\<forall>err. item_status it = Failed err \<longrightarrow>
          item_events it \<noteq> []
        \<and> last (item_events it) = ConsoleError (ErrorProcessingURL url err))
     \<and> (url \<notin> scrapedUrls st \<longrightarrow>
          (\<forall>evs q err s. try_block parse base cat n url (visits n) st = (evs, q, Thrown err, s)
             \<longrightarrow> item_status it = Failed err))"
  proof (cases "url \<in> scrapedUrls st")
    case True
    with sq show ?thesis by (auto simp: scrape_question_skipped)
  next
    case False
    obtain evs q c s where tb: "try_block parse base cat n url (visits n) st = (evs, q, c, s)"
      by (cases "try_block parse base cat n url (visits n) st") auto
    note it = scrape_question_try [OF False tb]
    show ?thesis
    proof (cases c)
      case (Thrown err)
      with it sq tb try_block_append [OF tb] False show ?thesis by auto
    next
      case Continued
      with it sq tb try_block_append [OF tb] False show ?thesis by auto
    next
      case Completed
      from try_block_completed [OF tb [unfolded Completed]]
      obtain qd els tcs where c:
        "goToUrl_throws (visits n) = None" "extractQuestionData (visits n) = Inr qd"
        "\<forall>p\<in>set (path_join [base, cat, dirName n (title qd)]
                  # map (\<lambda>language. path_join [path_join [base, cat, dirName n (title qd)], language]) LANGUAGES).
          createDirectory_throws (visits n) p = None"
        "testcase_elements (visits n) = Inr els"
        "saveMarkdown_throws (visits n) = None" "saveJson_throws (visits n) = None"
        "appendToFile_throws (visits n) = None"
        "evs = ([GoToUrl url, ExtractQuestionData]
          @ map CreateDirectory (path_join [base, cat, dirName n (title qd)]
                  # map (\<lambda>language. path_join [path_join [base, cat, dirName n (title qd)], language]) LANGUAGES)
          @ [ExtractTestCases])
          @ [SaveMarkdown (path_join [path_join [base, cat, dirName n (title qd)], ''README.md''])
               (generateQuestionMarkdown qd),
             SaveJson (path_join [path_join [base, cat, dirName n (title qd)], ''testcases.json'']) tcs,
             AppendToFile ''urls_to_skip.txt'' url]"
        by auto
      have ev: "\<exists>pre dir md tcs. item_events it =
              pre @ [SaveMarkdown (path_join [dir, ''README.md'']) md,
                     SaveJson (path_join [dir, ''testcases.json'']) tcs,
                     AppendToFile ''urls_to_skip.txt'' url]"
        using it sq Completed c(8) by (metis item.select_convs(5) completion.simps(10) fst_conv)
      from it sq Completed have "item_status it = Committed" by auto
      with ev c(1-7) False tb Completed show ?thesis by auto
    qed
  qed
  have thrown: "url \<notin> scrapedUrls st \<longrightarrow>
          (\<forall>err.
             (goToUrl_throws (visits n) = Some err
    \<or> (goToUrl_throws (visits n) = None \<and> extractQuestionData (visits n) = Inl err)
    \<or> (goToUrl_throws (visits n) = None
        \<and> (\<exists>qd. extractQuestionData (visits n) = Inr qd \<and> title qd \<noteq> [] \<and> description qd \<noteq> []
              \<and> ((\<exists>j<length (path_join [base, cat, dirName n (title qd)]
                       # map (\<lambda>language. path_join [path_join [base, cat, dirName n (title qd)], language]) LANGUAGES).
                      createDirectory_throws (visits n)
                        ((path_join [base, cat, dirName n (title qd)]
                          # map (\<lambda>language. path_join [path_join [base, cat, dirName n (title qd)], language]) LANGUAGES) ! j) = Some err
                      \<and> (\<forall>i<j. createDirectory_throws (visits n)
                            ((path_join [base, cat, dirName n (title qd)]
                              # map (\<lambda>language. path_join [path_join [base, cat, dirName n (title qd)], language]) LANGUAGES) ! i) = None))
                  \<or> ((\<forall>p\<in>set (path_join [base, cat, dirName n (title qd)]
                          # map (\<lambda>language. path_join [path_join [base, cat, dirName n (title qd)], language]) LANGUAGES).
                        createDirectory_throws (visits n) p = None)
                      \<and> (testcase_elements (visits n) = Inl err
                          \<or> ((\<exists>els. testcase_elements (visits n) = Inr els)
                              \<and> (saveMarkdown_throws (visits n) = Some err
                                  \<or> (saveMarkdown_throws (visits n) = None
                                      \<and> (saveJson_throws (visits n) = Some err
                                          \<or> (saveJson_throws (visits n) = None
                                              \<and> appendToFile_throws (visits n) = Some err)))))))))))
             \<longrightarrow> item_status it = Failed err \<and> st' = st \<and> item_events it \<noteq> []
                 \<and> last (item_events it) = ConsoleError (ErrorProcessingURL url err))"
  proof (intro impI allI)
    fix err
    assume new: "url \<notin> scrapedUrls st"
      and d: "goToUrl_throws (visits n) = Some err
    \<or> (goToUrl_throws (visits n) = None \<and> extractQuestionData (visits n) = Inl err)
    \<or> (goToUrl_throws (visits n) = None
        \<and> (\<exists>qd. extractQuestionData (visits n) = Inr qd \<and> title qd \<noteq> [] \<and> description qd \<noteq> []
              \<and> ((\<exists>j<length (path_join [base, cat, dirName n (title qd)]
                       # map (\<lambda>language. path_join [path_join [base, cat, dirName n (title qd)], language]) LANGUAGES).
                      createDirectory_throws (visits n)
                        ((path_join [base, cat, dirName n (title qd)]
                          # map (\<lambda>language. path_join [path_join [base, cat, dirName n (title qd)], language]) LANGUAGES) ! j) = Some err
                      \<and> (\<forall>i<j. createDirectory_throws (visits n)
                            ((path_join [base, cat, dirName n (title qd)]
                              # map (\<lambda>language. path_join [path_join [base, cat, dirName n (title qd)], language]) LANGUAGES) ! i) = None))
                  \<or> ((\<forall>p\<in>set (path_join [base, cat, dirName n (title qd)]
                          # map (\<lambda>language. path_join [path_join [base, cat, dirName n (title qd)], language]) LANGUAGES).
                        createDirectory_throws (visits n) p = None)
                      \<and> (testcase_elements (visits n) = Inl err
                          \<or> ((\<exists>els. testcase_elements (visits n) = Inr els)
                              \<and> (saveMarkdown_throws (visits n) = Some err
                                  \<or> (saveMarkdown_throws (visits n) = None
                                      \<and> (saveJson_throws (visits n) = Some err
                                          \<or> (saveJson_throws (visits n) = None
                                              \<and> appendToFile_throws (visits n) = Some err))))))))))"
    from try_block_thrown [OF d, of parse url st]
    obtain evs q where tb: "try_block parse base cat n url (visits n) st = (evs, q, Thrown err, st)"
      by blast
    from scrape_question_try [OF new tb] sq
    show "item_status it = Failed err \<and> st' = st \<and> item_events it \<noteq> []
                 \<and> last (item_events it) = ConsoleError (ErrorProcessingURL url err)"
      by auto
  qed
  have main: "scrape_question parse base cat n url (visits n) st = (it, st')
     \<and> its = it # fst (while_queue parse base visits cat (n + 1) queue st')
     \<and> st'' = snd (while_queue parse base visits cat (n + 1) queue st')
     \<and> map item_url its = url # queue
     \<and> (item_status it \<noteq> Committed \<longrightarrow> st' = st)"
    using sq its st'' urls s1 by simp
  show ?thesis
    apply (rule exI [of _ it])
    apply (rule exI [of _ st'])
    using main s2 s3 rest thrown apply (simp only: simp_thms)
    apply blast
    done
qed

theorem commit_only_after_writes_witness:
  "\<exists>it st'. scrape_question JSON_parse ''/dl'' ''Arrays'' 1 example_url
       (example_visit\<lparr>saveJson_throws := Some FileSystemError\<rparr>) fresh = (it, st')
     \<and> item_status it = Failed FileSystemError \<and> st' = fresh
     \<and> last (item_events it) = ConsoleError (ErrorProcessingURL example_url FileSystemError)"
proof -
  let ?v = "example_visit\<lparr>saveJson_throws := Some FileSystemError\<rparr>"
  obtain its st'' where wq: "while_queue JSON_parse ''/dl'' (\<lambda>n. ?v) ''Arrays'' 1
      [example_url] fresh = (its, st'')"
    by fastforce
  have new: "example_url \<notin> scrapedUrls fresh" by (simp add: fresh_def)
  have q: "extractQuestionData ?v = Inr example_question" by code_simp
  have t: "title example_question \<noteq> []" "description example_question \<noteq> []"
    by (simp_all add: example_question_def)
  have flags: "goToUrl_throws ?v = None" "\<forall>p. createDirectory_throws ?v p = None"
    "testcase_elements ?v = Inr [''8'', ''hidden'', ''[3, 5]'']"
    "saveMarkdown_throws ?v = None" "saveJson_throws ?v = Some FileSystemError"
    by (simp_all add: example_visit_def)
  from commit_only_after_writes [OF wq] new q t flags
  show ?thesis by blast
qed

text \<open>
  Claim C7: a question whose title or description was extracted empty, or whose
  extraction threw (an absent title is a \<open>TypeError\<close>), leaves no directory, no
  \<^verbatim>\<open>README.md\<close>, no \<^verbatim>\<open>testcases.json\<close> and no line in the skip-list, and
  its turn leaves the state as it was. Over a whole run: every item that is committed
  or has any persistence event in its trace carries a question with a non-empty title
  and a non-empty description, which is the one extracted on its visit, and the set
  and the file grow by the identifiers of the committed items only.
\<close>

theorem invalid_never_persisted:
  "(\<forall>it st'. scrape_question parse base cat n url v st = (it, st') \<longrightarrow>
       (case extractQuestionData v of Inl err \<Rightarrow> True
        | Inr qd \<Rightarrow> title qd = [] \<or> description qd = []) \<longrightarrow>
       (\<forall>e\<in>set (item_events it). \<not> is_persistence e)
       \<and> item_status it \<noteq> Committed \<and> st' = st)
   \<and> (\<forall>its st0 st'. initializeScrapedUrls w = Inr st0 \<longrightarrow>
         Scraper_run parse base w = Inr (its, st') \<longrightarrow>
         (\<forall>it\<in>set its.
            (\<forall>qd. item_question it = Some qd \<longrightarrow>
               extractQuestionData (visit_at w (item_category it) (item_num it)) = Inr qd)
          \<and> (item_status it = Committed \<or> (\<exists>e\<in>set (item_events it). is_persistence e) \<longrightarrow>
               (\<exists>qd. item_question it = Some qd \<and> title qd \<noteq> [] \<and> description qd \<noteq> [])))
       \<and> scrapedUrls st' =
           scrapedUrls st0 \<union> item_url ` {it \<in> set its. item_status it = Committed}
       \<and> urls_to_skip_txt st' = urls_to_skip_txt st0
            @ concat (map (\<lambda>it. item_url it @ [CHR 0x0A])
                        (filter (\<lambda>it. item_status it = Committed) its)))"
proof (rule conjI)
  show "\<forall>it st'. scrape_question parse base cat n url v st = (it, st') \<longrightarrow>
       (case extractQuestionData v of Inl err \<Rightarrow> True
        | Inr qd \<Rightarrow> title qd = [] \<or> description qd = []) \<longrightarrow>
       (\<forall>e\<in>set (item_events it). \<not> is_persistence e)
       \<and> item_status it \<noteq> Committed \<and> st' = st"
    using scrape_question_invalid [of parse base cat n url v st] by blast
next
  show "\<forall>its st0 st'. initializeScrapedUrls w = Inr st0 \<longrightarrow>
         Scraper_run parse base w = Inr (its, st') \<longrightarrow>
         (\<forall>it\<in>set its.
            (\<forall>qd. item_question it = Some qd \<longrightarrow>
               extractQuestionData (visit_at w (item_category it) (item_num it)) = Inr qd)
          \<and> (item_status it = Committed \<or> (\<exists>e\<in>set (item_events it). is_persistence e) \<longrightarrow>
               (\<exists>qd. item_question it = Some qd \<and> title qd \<noteq> [] \<and> description qd \<noteq> [])))
       \<and> scrapedUrls st' =
           scrapedUrls st0 \<union> item_url ` {it \<in> set its. item_status it = Committed}
       \<and> urls_to_skip_txt st' = urls_to_skip_txt st0
            @ concat (map (\<lambda>it. item_url it @ [CHR 0x0A])
                        (filter (\<lambda>it. item_status it = Committed) its))"
  proof (intro allI impI)
    fix its st0 st'
    assume init: "initializeScrapedUrls w = Inr st0"
      and run: "Scraper_run parse base w = Inr (its, st')"
    then obtain qbc where fc: "for_categories parse base (visit_at w) qbc st0 = (its, st')"
      by (auto simp: Scraper_run_def split: sum.splits option.splits)
    have a: "\<forall>it\<in>set its.
            (\<forall>qd. item_question it = Some qd \<longrightarrow>
               extractQuestionData (visit_at w (item_category it) (item_num it)) = Inr qd)
          \<and> (item_status it = Committed \<or> (\<exists>e\<in>set (item_events it). is_persistence e) \<longrightarrow>
               (\<exists>qd. item_question it = Some qd \<and> title qd \<noteq> [] \<and> description qd \<noteq> []))"
    proof
      fix it assume "it \<in> set its"
      with for_categories_items [of parse base "visit_at w" qbc st0] fc
      obtain s s' where "scrape_question parse base (item_category it) (item_num it) (item_url it)
                  (visit_at w (item_category it) (item_num it)) s = (it, s')"
        by auto
      from scrape_question_question [OF this]
      show "(\<forall>qd. item_question it = Some qd \<longrightarrow>
               extractQuestionData (visit_at w (item_category it) (item_num it)) = Inr qd)
          \<and> (item_status it = Committed \<or> (\<exists>e\<in>set (item_events it). is_persistence e) \<longrightarrow>
               (\<exists>qd. item_question it = Some qd \<and> title qd \<noteq> [] \<and> description qd \<noteq> []))" .
    qed
    from a for_categories_effect [OF fc]
    show "(\<forall>it\<in>set its.
            (\<forall>qd. item_question it = Some qd \<longrightarrow>
               extractQuestionData (visit_at w (item_category it) (item_num it)) = Inr qd)
          \<and> (item_status it = Committed \<or> (\<exists>e\<in>set (item_events it). is_persistence e) \<longrightarrow>
               (\<exists>qd. item_question it = Some qd \<and> title qd \<noteq> [] \<and> description qd \<noteq> [])))
       \<and> scrapedUrls st' =
           scrapedUrls st0 \<union> item_url ` {it \<in> set its. item_status it = Committed}
       \<and> urls_to_skip_txt st' = urls_to_skip_txt st0
            @ concat (map (\<lambda>it. item_url it @ [CHR 0x0A])
                        (filter (\<lambda>it. item_status it = Committed) its))"
      by blast
  qed
qed

theorem invalid_never_persisted_witness:
  "\<exists>it st'. scrape_question JSON_parse ''/dl'' ''Arrays'' 1 example_url
               (example_visit\<lparr>paragraph_texts := Inr []\<rparr>) fresh = (it, st')
     \<and> filter is_persistence (item_events it) = []
     \<and> item_status it \<noteq> Committed \<and> st' = fresh"
proof -
  obtain it st' where sq: "scrape_question JSON_parse ''/dl'' ''Arrays'' 1 example_url
               (example_visit\<lparr>paragraph_texts := Inr []\<rparr>) fresh = (it, st')"
    by fastforce
  have inv: "case extractQuestionData (example_visit\<lparr>paragraph_texts := Inr []\<rparr>) of
               Inl err \<Rightarrow> True | Inr qd \<Rightarrow> title qd = [] \<or> description qd = []"
    by code_simp
  from invalid_never_persisted [of JSON_parse "''/dl''" "''Arrays''" 1 example_url
      "example_visit\<lparr>paragraph_texts := Inr []\<rparr>" fresh] sq inv
  have "(\<forall>e\<in>set (item_events it). \<not> is_persistence e)
       \<and> item_status it \<noteq> Committed \<and> st' = fresh"
    by blast
  then have "filter is_persistence (item_events it) = []
     \<and> item_status it \<noteq> Committed \<and> st' = fresh"
    by (simp add: filter_empty_conv)
  with sq show ?thesis by blast
qed

subsection \<open>Directory names and positions\<close>































text \<open>
  Claim C8, as stated, fails for a title that holds a slash. The first question of the
  category \<^verbatim>\<open>Stacks\<close> with the title \<^verbatim>\<open>Min/Max Stack\<close> is committed;
  \<^verbatim>\<open>dirName\<close> is \<^verbatim>\<open>01-Min/Max-Stack\<close>, and \<^verbatim>\<open>path.join\<close> makes of it two
  levels: the directory that receives the files is named \<^verbatim>\<open>Max-Stack\<close> and lies in a
  directory \<^verbatim>\<open>01-Min\<close>.
\<close>

theorem directory_name_counterexample:
  "item_status (fst (scrape_question JSON_parse ''/dl'' ''Stacks'' 1 example_url slash_visit fresh))
     = Committed
   \<and> take 3 (item_events
        (fst (scrape_question JSON_parse ''/dl'' ''Stacks'' 1 example_url slash_visit fresh)))
     = [GoToUrl example_url, ExtractQuestionData, CreateDirectory ''/dl/Stacks/01-Min/Max-Stack'']
   \<and> SaveMarkdown ''/dl/Stacks/01-Min/Max-Stack/README.md''
         (generateQuestionMarkdown (example_question\<lparr>title := ''Min/Max Stack''\<rparr>))
       \<in> set (item_events
           (fst (scrape_question JSON_parse ''/dl'' ''Stacks'' 1 example_url slash_visit fresh)))
   \<and> dirName 1 ''Min/Max Stack'' = ''01-Min/Max-Stack''
   \<and> split_on CHR ''/'' (path_join [''/dl'', ''Stacks'', dirName 1 ''Min/Max Stack''])
     = ['''', ''dl'', ''Stacks'', ''01-Min'', ''Max-Stack'']
   \<and> last (split_on CHR ''/'' (path_join [''/dl'', ''Stacks'', dirName 1 ''Min/Max Stack'']))
     \<noteq> dirName 1 ''Min/Max Stack''"
  by code_simp



subsection \<open>The skip-list across two runs\<close>

lemma split_lines_Nil [simp]: "split_lines [] = [[]]"
  by (simp add: split_lines_def)







text \<open>
  Claim C3, as stated, fails in two settings. When the skip-list that the first run
  finds does not end with a newline, the first identifier that run appends is glued to
  the last line of the file: all three items of the first run are committed, and the
  second run scrapes the first of them again. When an identifier ends with a blank (a
  link whose \<^verbatim>\<open>href\<close> does), the loader trims the line and the lookup does not
  trim the identifier: the one item of the first run is committed, and the second run
  scrapes it again. Each second run makes eight persistence events.
\<close>

theorem resume_idempotent_counterexample:
  "statuses (Scraper_run JSON_parse ''/dl'' unterminated_world) = [Committed, Committed, Committed]
   \<and> statuses (Scraper_run JSON_parse ''/dl'' (second_world unterminated_world))
     = [Committed, Skipped, Skipped]
   \<and> length (persistence_events
        (Scraper_run JSON_parse ''/dl'' (second_world unterminated_world))) = 8
   \<and> statuses (Scraper_run JSON_parse ''/dl'' blank_world) = [Committed]
   \<and> statuses (Scraper_run JSON_parse ''/dl'' (second_world blank_world)) = [Committed]
   \<and> length (persistence_events
        (Scraper_run JSON_parse ''/dl'' (second_world blank_world))) = 8"
  by code_simp



end
